theory Spec2Isabelle
  imports Main "HOL-Library.Sublist"
begin

section \<open>Data model of \<^verbatim>\<open>qbraid/_archive/circuits/circuit.py\<close>\<close>

text \<open>
  The module schedules instructions (operations) into the moments of a circuit.
  Python objects are compared by identity in two places (\<^verbatim>\<open>spec[0] is instruction\<close>
  and the membership of a \<^verbatim>\<open>Parameter\<close> in the parameter table), so parameters and
  instructions carry an object identity in their record; identity of objects is
  equality of these records.
\<close>

record parameter =
  param_id :: nat
  param_name :: string

text \<open>An argument of a gate is a number or a \<^verbatim>\<open>Parameter\<close>; the numbers are never
  inspected by the circuit code.\<close>

datatype gate_param = Num int | Sym parameter

text \<open>\<^verbatim>\<open>Instruction(gate, qubits)\<close>: \<^verbatim>\<open>instruction.gate.params\<close> and the qubit
  indices, which are Python integers (they may be negative or too large).\<close>

record instruction =
  instr_id :: nat
  gate_name :: string
  gate_params :: "gate_param list"
  qubits :: "int list"

text \<open>The four members of \<^verbatim>\<open>UpdateRule\<close> that \<^verbatim>\<open>_update\<close> names, and any other value
  a caller may pass, which reaches the final \<^verbatim>\<open>else\<close> of the dispatch.\<close>

datatype UpdateRule = EARLIEST | INLINE | NEW | NEW_THEN_INLINE | OTHER_RULE

text \<open>\<^verbatim>\<open>CircuitError\<close> is told apart by the place that raises it, with the names of the
  specification's taxonomy; \<^verbatim>\<open>TypeError\<close> is \<open>TypeMismatch\<close>; \<open>IndexError\<close> and
  \<open>KeyError\<close> are Python's own errors of a subscript that is out of range or is no
  key.\<close>

datatype error =
  OutOfRangeResource | UnsupportedOperationKind | UnsupportedUpdateRule | NameConflict
  | InvalidOperation | ResourceConflict | TypeMismatch | IndexError | KeyError

text \<open>
  A \<^verbatim>\<open>Moment\<close> is a mutable object that holds the list \<^verbatim>\<open>instructions\<close>. The circuit
  keeps references to moment objects, \<^verbatim>\<open>append\<close> inserts the caller's moment object
  itself, and the update rules mutate moments in place. Moments therefore live in a store
  that maps a reference to the current instruction list; \<open>next_ref\<close> is the next unused
  reference.
\<close>

type_synonym mref = nat

type_synonym moment = "instruction list"

text \<open>\<^verbatim>\<open>ParameterTable\<close>: a dictionary from \<^verbatim>\<open>Parameter\<close> to the list of
  \<^verbatim>\<open>(instruction, param_index)\<close> pairs, in insertion order.\<close>

type_synonym ptable = "(parameter \<times> (instruction \<times> nat) list) list"

record circuit =
  num_qubits :: nat
  moments :: "mref list"
  name :: "string option"
  update_rule :: UpdateRule
  parameter_table :: ptable

record state =
  store :: "mref \<Rightarrow> moment"
  next_ref :: mref
  circ :: circuit

text \<open>One element of what \<^verbatim>\<open>_update\<close> iterates over: an \<^verbatim>\<open>Instruction\<close>, a
  \<^verbatim>\<open>Moment\<close> (by reference), another \<^verbatim>\<open>Circuit\<close> (of which only \<^verbatim>\<open>circuit.moments\<close> is
  read), or an object of any other type. The circuit is one other than the receiver:
  \<^verbatim>\<open>_append_circuit\<close> iterates over \<^verbatim>\<open>circuit.moments\<close> while it appends to
  \<^verbatim>\<open>self._moments\<close>, so a circuit with moments that is appended to itself never
  returns.\<close>

datatype item = Instr instruction | Mom mref | Circ "mref list" | Other

text \<open>The argument \<^verbatim>\<open>operation\<close> of \<^verbatim>\<open>append\<close>: \<^verbatim>\<open>None\<close>, one object that is not
  iterable, a sequence (a list or a tuple), or any other iterable. Of an iterable that is
  no sequence \<^verbatim>\<open>append\<close> uses two things: what the subscript \<^verbatim>\<open>operation[0]\<close> does
  (a set, an iterator or a generator raises \<^verbatim>\<open>TypeError\<close>, a dictionary raises
  \<open>KeyError\<close> or returns the value of the key 0), and the elements that iterating over
  it yields, in the order of the iteration (for a dictionary, its keys). Modelled from the
  spec: the classes \<^verbatim>\<open>Instruction\<close> and \<^verbatim>\<open>Moment\<close> are missing; one operation and one
  moment are singular inputs, which \<^verbatim>\<open>append\<close> turns into a one-element sequence, and
  so is a \<^verbatim>\<open>Circuit\<close>, which has no \<^verbatim>\<open>__iter__\<close>.\<close>

datatype operation =
  PyNone | Single item | Seq "item list" | OtherIterable "error + item" "item list"

text \<open>The argument \<^verbatim>\<open>mapping\<close> of \<^verbatim>\<open>append\<close>: a list or a dictionary of qubit
  indices.\<close>

datatype mapping = MapList "int list" | MapDict "(int \<times> int) list"

text \<open>\<^verbatim>\<open>Circuit.__init__\<close>: \<^verbatim>\<open>range(abs(num_qubits))\<close> qubits, no moments, an empty
  parameter table.\<close>

definition Circuit :: "int \<Rightarrow> string option \<Rightarrow> UpdateRule \<Rightarrow> circuit" where
  "Circuit n nm rule =
     \<lparr>num_qubits = nat \<bar>n\<bar>, moments = [], name = nm, update_rule = rule, parameter_table = []\<rparr>"

section \<open>Collaborators that are not part of the module\<close>

text \<open>Modelled from the spec: \<^verbatim>\<open>Moment.appendable\<close> (module \<^verbatim>\<open>moment\<close> is missing):
  true iff the operation's resource set does not intersect the union of the resource sets
  of the operations already held.\<close>

definition appendable :: "moment \<Rightarrow> instruction \<Rightarrow> bool" where
  "appendable m op = (\<forall>q \<in> set (qubits op). \<forall>i \<in> set m. q \<notin> set (qubits i))"

text \<open>Modelled from the spec: \<^verbatim>\<open>Moment.append\<close> (module \<^verbatim>\<open>moment\<close> is missing): appends
  the operation in arrival order; it re-checks \<open>appendable\<close> and fails with
  \<open>ResourceConflict\<close> if violated.\<close>

definition Moment_append :: "moment \<Rightarrow> instruction \<Rightarrow> error + moment" where
  "Moment_append m op = (if appendable m op then Inr (m @ [op]) else Inl ResourceConflict)"

text \<open>Modelled from the spec: the range check of \<^verbatim>\<open>validate_operation\<close> (module
  \<^verbatim>\<open>utils\<close> is missing): every resource index of the operation is in
  \<open>[0, num_resources)\<close>.\<close>

definition in_range :: "nat \<Rightarrow> instruction \<Rightarrow> bool" where
  "in_range n op = (\<forall>q \<in> set (qubits op). 0 \<le> q \<and> q < int n)"

text \<open>What \<^verbatim>\<open>validate_operation\<close> is called with: an instruction or (the instructions
  of) a moment.\<close>

datatype validated = VInstr instruction | VMoment moment

text \<open>Modelled from the spec: \<^verbatim>\<open>validate_operation\<close> (module \<^verbatim>\<open>utils\<close> is missing). A
  resource index outside \<open>[0, num_resources)\<close> of an operation fails with
  \<open>OutOfRangeResource\<close>; for a moment the result tells whether every contained operation
  is in range, and the caller raises \<open>InvalidOperation\<close> when it is not.\<close>

fun validate_operation :: "validated \<Rightarrow> nat \<Rightarrow> error + bool" where
  "validate_operation (VInstr op) n = (if in_range n op then Inr True else Inl OutOfRangeResource)"
| "validate_operation (VMoment m) n = Inr (list_all (in_range n) m)"

text \<open>The module \<^verbatim>\<open>parametertable\<close> is missing. Membership \<^verbatim>\<open>param in table\<close> and
  lookup \<^verbatim>\<open>table[param]\<close> are by the symbol's identity, as the spec says; they are
  \<open>map_of\<close> on the list of entries.\<close>

text \<open>Modelled from the spec: \<^verbatim>\<open>ParameterTable.get_names\<close>, the display names of the
  registered symbols.\<close>

definition get_names :: "ptable \<Rightarrow> string list" where
  "get_names tbl = map (\<lambda>e. param_name (fst e)) tbl"

text \<open>Modelled from the spec: \<^verbatim>\<open>table[param].append(binding)\<close>, the in-place
  extension of the binding list of a registered symbol.\<close>

definition table_extend :: "ptable \<Rightarrow> parameter \<Rightarrow> instruction \<times> nat \<Rightarrow> ptable" where
  "table_extend tbl p b = map (\<lambda>e. if fst e = p then (fst e, snd e @ [b]) else e) tbl"

text \<open>Modelled from the spec: \<^verbatim>\<open>table[param] = [binding]\<close> for a symbol that is not
  registered: a new entry with this one binding.\<close>

definition table_new :: "ptable \<Rightarrow> parameter \<Rightarrow> instruction \<times> nat \<Rightarrow> ptable" where
  "table_new tbl p b = tbl @ [(p, [b])]"

section \<open>The methods of \<^verbatim>\<open>Circuit\<close>\<close>

text \<open>A method that mutates the circuit returns the state it leaves behind and the
  exception it raised, if any: the state after an exception is the one the caller of the
  method observes.\<close>

text \<open>\<^verbatim>\<open>_check_dup_param_spec\<close>.\<close>

fun check_dup_param_spec :: "(instruction \<times> nat) list \<Rightarrow> instruction \<Rightarrow> nat \<Rightarrow> bool" where
  "check_dup_param_spec [] instr param_index = False"
| "check_dup_param_spec (spec # parameter_spec_list) instr param_index =
     (if fst spec = instr \<and> snd spec = param_index then True
      else check_dup_param_spec parameter_spec_list instr param_index)"

text \<open>The body of the loop of \<^verbatim>\<open>_add_parameters\<close>, for the argument \<open>param\<close> at
  position \<open>param_index\<close>. The cache attribute \<^verbatim>\<open>_parameters\<close> that the method clears is
  read nowhere and is left out.\<close>

definition add_parameter ::
  "ptable \<Rightarrow> instruction \<Rightarrow> nat \<Rightarrow> gate_param \<Rightarrow> error + ptable" where
  "add_parameter tbl instr param_index param =
     (case param of
        Num _ \<Rightarrow> Inr tbl
      | Sym p \<Rightarrow>
          (case map_of tbl p of
             Some specs \<Rightarrow>
               if \<not> check_dup_param_spec specs instr param_index
               then Inr (table_extend tbl p (instr, param_index))
               else Inr tbl
           | None \<Rightarrow>
               if param_name p \<in> set (get_names tbl) then Inl NameConflict
               else Inr (table_new tbl p (instr, param_index))))"

fun add_parameters_from ::
  "ptable \<Rightarrow> instruction \<Rightarrow> nat \<Rightarrow> gate_param list \<Rightarrow> ptable \<times> error option" where
  "add_parameters_from tbl instr param_index [] = (tbl, None)"
| "add_parameters_from tbl instr param_index (param # rest) =
     (case add_parameter tbl instr param_index param of
        Inl e \<Rightarrow> (tbl, Some e)
      | Inr tbl' \<Rightarrow> add_parameters_from tbl' instr (Suc param_index) rest)"

text \<open>\<^verbatim>\<open>_add_parameters\<close>.\<close>

definition add_parameters :: "state \<Rightarrow> instruction \<Rightarrow> state \<times> error option" where
  "add_parameters s instr =
     (case add_parameters_from (parameter_table (circ s)) instr 0 (gate_params instr) of
        (tbl, e) \<Rightarrow> (s\<lparr>circ := (circ s)\<lparr>parameter_table := tbl\<rparr>\<rparr>, e))"

text \<open>\<^verbatim>\<open>_create_new_moment\<close>: a new moment object, holding \<open>op\<close> if one is given, is
  appended to \<^verbatim>\<open>_moments\<close>. The instruction is put into the list directly, not through
  \<^verbatim>\<open>Moment.append\<close>. The test \<^verbatim>\<open>if op\<close> is taken to hold for every instruction (the
  class \<^verbatim>\<open>Instruction\<close> is missing; an object is true unless its class says
  otherwise).\<close>

definition create_new_moment :: "state \<Rightarrow> instruction option \<Rightarrow> state" where
  "create_new_moment s op =
     s\<lparr>store := (store s)(next_ref s := (case op of None \<Rightarrow> [] | Some i \<Rightarrow> [i])),
       next_ref := Suc (next_ref s),
       circ := (circ s)\<lparr>moments := moments (circ s) @ [next_ref s]\<rparr>\<rparr>"

text \<open>\<^verbatim>\<open>_earliest_appended\<close>: the loop over \<^verbatim>\<open>self._moments\<close> runs to the end of the
  list; the flag \<open>appended\<close> is returned.\<close>

fun earliest_scan ::
  "state \<Rightarrow> mref list \<Rightarrow> instruction \<Rightarrow> bool \<Rightarrow> state \<times> (error + bool)" where
  "earliest_scan s [] op appended = (s, Inr appended)"
| "earliest_scan s (r # rs) op appended =
     (if appendable (store s r) op then
        (case Moment_append (store s r) op of
           Inl e \<Rightarrow> (s, Inl e)
         | Inr m \<Rightarrow> earliest_scan (s\<lparr>store := (store s)(r := m)\<rparr>) rs op True)
      else earliest_scan s rs op appended)"

definition earliest_appended :: "state \<Rightarrow> instruction \<Rightarrow> state \<times> (error + bool)" where
  "earliest_appended s op = earliest_scan s (moments (circ s)) op False"

text \<open>The statement that the branches for \<^verbatim>\<open>NEW_THEN_INLINE\<close> and \<^verbatim>\<open>NEW\<close> share:
  \<^verbatim>\<open>if not self.moments[0].instructions: self.moments[0].append(op)\<close>, else
  \<^verbatim>\<open>self._create_new_moment(op)\<close>. The subscript raises \<open>IndexError\<close> on a circuit
  without moments.\<close>

definition seed_or_new :: "state \<Rightarrow> instruction \<Rightarrow> state \<times> error option" where
  "seed_or_new s op =
     (case moments (circ s) of
        [] \<Rightarrow> (s, Some IndexError)
      | r # _ \<Rightarrow>
          if store s r = [] then
            (case Moment_append (store s r) op of
               Inl e \<Rightarrow> (s, Some e)
             | Inr m \<Rightarrow> (s\<lparr>store := (store s)(r := m)\<rparr>, None))
          else (create_new_moment s (Some op), None))"

text \<open>The dispatch on the update rule inside \<^verbatim>\<open>_update\<close>, for an instruction that has
  been validated and whose parameters have been added. The rule that holds afterwards is
  returned as well: \<^verbatim>\<open>NEW_THEN_INLINE\<close> turns into \<^verbatim>\<open>INLINE\<close>. \<^verbatim>\<open>self._moments[-1]\<close>
  raises \<open>IndexError\<close> on a circuit without moments.\<close>

definition place :: "state \<Rightarrow> instruction \<Rightarrow> UpdateRule \<Rightarrow> (state \<times> UpdateRule) \<times> error option" where
  "place s op rule =
     (case rule of
        NEW_THEN_INLINE \<Rightarrow>
          (case seed_or_new s op of
             (s', Some e) \<Rightarrow> ((s', rule), Some e)
           | (s', None) \<Rightarrow> ((s', INLINE), None))
      | INLINE \<Rightarrow>
          (if moments (circ s) = [] then ((s, rule), Some IndexError)
           else
             let curr_moment = last (moments (circ s)) in
             if appendable (store s curr_moment) op then
               (case Moment_append (store s curr_moment) op of
                  Inl e \<Rightarrow> ((s, rule), Some e)
                | Inr m \<Rightarrow> ((s\<lparr>store := (store s)(curr_moment := m)\<rparr>, rule), None))
             else ((create_new_moment s (Some op), rule), None))
      | NEW \<Rightarrow>
          (case seed_or_new s op of (s', e) \<Rightarrow> ((s', rule), e))
      | EARLIEST \<Rightarrow>
          (case earliest_appended s op of
             (s', Inl e) \<Rightarrow> ((s', rule), Some e)
           | (s', Inr appended) \<Rightarrow>
               if \<not> appended then ((create_new_moment s' (Some op), rule), None)
               else ((s', rule), None))
      | OTHER_RULE \<Rightarrow> ((s, rule), Some UnsupportedUpdateRule))"

text \<open>The branch of \<^verbatim>\<open>_update\<close> for an \<^verbatim>\<open>Instruction\<close>.\<close>

definition update_instruction ::
  "state \<Rightarrow> instruction \<Rightarrow> UpdateRule \<Rightarrow> (state \<times> UpdateRule) \<times> error option" where
  "update_instruction s op rule =
     (case validate_operation (VInstr op) (num_qubits (circ s)) of
        Inl e \<Rightarrow> ((s, rule), Some e)
      | Inr ok \<Rightarrow>
          if ok then
            (case add_parameters s op of
               (s', Some e) \<Rightarrow> ((s', rule), Some e)
             | (s', None) \<Rightarrow> place s' op rule)
          else ((s, rule), None))"

text \<open>The loop \<^verbatim>\<open>for instr in op.instructions: self._add_parameters(instr)\<close>.\<close>

fun add_parameters_all :: "state \<Rightarrow> instruction list \<Rightarrow> state \<times> error option" where
  "add_parameters_all s [] = (s, None)"
| "add_parameters_all s (instr # rest) =
     (case add_parameters s instr of
        (s', Some e) \<Rightarrow> (s', Some e)
      | (s', None) \<Rightarrow> add_parameters_all s' rest)"

text \<open>\<^verbatim>\<open>list.insert(k, op)\<close> for \<open>0 \<le> k \<le> len\<close>.\<close>

definition list_insert :: "'a list \<Rightarrow> nat \<Rightarrow> 'a \<Rightarrow> 'a list" where
  "list_insert xs k x = take k xs @ x # drop k xs"

text \<open>The branch of \<^verbatim>\<open>_update\<close> for a \<^verbatim>\<open>Moment\<close>: \<open>k\<close> is computed from \<open>index\<close> and
  the current length; the assignment \<^verbatim>\<open>k += 1\<close> has no effect, as \<open>k\<close> is computed
  anew for the next moment.\<close>

definition update_moment :: "state \<Rightarrow> mref \<Rightarrow> int \<Rightarrow> state \<times> error option" where
  "update_moment s op index =
     (let len = int (length (moments (circ s)));
          k = max (min (if index \<ge> 0 then index else len + index) len) 0
      in case validate_operation (VMoment (store s op)) (num_qubits (circ s)) of
           Inl e \<Rightarrow> (s, Some e)
         | Inr ok \<Rightarrow>
             if ok then
               (case add_parameters_all s (store s op) of
                  (s', Some e) \<Rightarrow> (s', Some e)
                | (s', None) \<Rightarrow>
                    (s'\<lparr>circ := (circ s')\<lparr>moments := list_insert (moments (circ s')) (nat k) op\<rparr>\<rparr>,
                     None))
             else (s, Some InvalidOperation))"

text \<open>What \<^verbatim>\<open>self.append(moment, update_rule=update_rule)\<close> does inside
  \<^verbatim>\<open>_append_circuit\<close>: a moment is not iterable, so \<^verbatim>\<open>append\<close> wraps it into a list and
  calls \<^verbatim>\<open>_update\<close> with \<open>index = len(self._moments)\<close>, which takes the moment branch
  once (lemma \<open>circuit_append_moment\<close> below).\<close>

definition append_moment :: "state \<Rightarrow> mref \<Rightarrow> state \<times> error option" where
  "append_moment s m = update_moment s m (int (length (moments (circ s))))"

text \<open>\<^verbatim>\<open>_append_circuit\<close>: every element of \<^verbatim>\<open>circuit.moments\<close> is a \<^verbatim>\<open>Moment\<close>, so the
  \<^verbatim>\<open>isinstance\<close> test holds. No mapping of qubit indices takes place.\<close>

fun append_circuit :: "state \<Rightarrow> mref list \<Rightarrow> state \<times> error option" where
  "append_circuit s [] = (s, None)"
| "append_circuit s (m # ms) =
     (case validate_operation (VMoment (store s m)) (num_qubits (circ s)) of
        Inl e \<Rightarrow> (s, Some e)
      | Inr ok \<Rightarrow>
          if ok then
            (case append_moment s m of
               (s', Some e) \<Rightarrow> (s', Some e)
             | (s', None) \<Rightarrow> append_circuit s' ms)
          else (s, Some InvalidOperation))"

text \<open>\<^verbatim>\<open>_update\<close>: the loop over the elements, with the local variable
  \<open>update_rule\<close> threaded through. An element of another type matches no branch and is
  skipped.\<close>

fun update_from ::
  "state \<Rightarrow> item list \<Rightarrow> UpdateRule \<Rightarrow> int \<Rightarrow> (state \<times> UpdateRule) \<times> error option" where
  "update_from s [] rule index = ((s, rule), None)"
| "update_from s (Instr op # rest) rule index =
     (case update_instruction s op rule of
        ((s', rule'), Some e) \<Rightarrow> ((s', rule'), Some e)
      | ((s', rule'), None) \<Rightarrow> update_from s' rest rule' index)"
| "update_from s (Mom m # rest) rule index =
     (case update_moment s m index of
        (s', Some e) \<Rightarrow> ((s', rule), Some e)
      | (s', None) \<Rightarrow> update_from s' rest rule index)"
| "update_from s (Circ ms # rest) rule index =
     (case append_circuit s ms of
        (s', Some e) \<Rightarrow> ((s', rule), Some e)
      | (s', None) \<Rightarrow> update_from s' rest rule index)"
| "update_from s (Other # rest) rule index = update_from s rest rule index"

definition update :: "state \<Rightarrow> item list \<Rightarrow> UpdateRule \<Rightarrow> int \<Rightarrow> state \<times> error option" where
  "update s ops rule index = (case update_from s ops rule index of ((s', _), e) \<Rightarrow> (s', e))"

text \<open>\<^verbatim>\<open>isinstance(x, Instruction)\<close>.\<close>

fun is_Instruction :: "item \<Rightarrow> bool" where
  "is_Instruction (Instr _) = True"
| "is_Instruction _ = False"

text \<open>The subscript \<^verbatim>\<open>operation[0]\<close> of a list.\<close>

definition subscript0 :: "item list \<Rightarrow> error + item" where
  "subscript0 ops = (case ops of [] \<Rightarrow> Inl IndexError | first # _ \<Rightarrow> Inr first)"

text \<open>\<^verbatim>\<open>append\<close> for an iterable \<open>operation\<close>, after the default rule has been
  resolved: \<open>first\<close> is what \<^verbatim>\<open>operation[0]\<close> does, which is evaluated only for a
  circuit without moments, and \<open>ops\<close> are the elements that \<^verbatim>\<open>_update\<close> iterates
  over.\<close>

definition append_iterable ::
  "state \<Rightarrow> error + item \<Rightarrow> item list \<Rightarrow> UpdateRule \<Rightarrow> state \<times> error option" where
  "append_iterable s first ops rule =
     (if moments (circ s) = [] then
        (case first of
           Inl e \<Rightarrow> (s, Some e)
         | Inr x \<Rightarrow>
             let s' = (if is_Instruction x then create_new_moment s None else s)
             in update s' ops rule (int (length (moments (circ s')))))
      else update s ops rule (int (length (moments (circ s)))))"

text \<open>\<^verbatim>\<open>Circuit.append\<close>. The method passes \<open>mapping\<close> to its own recursive call
  and reads it nowhere else; \<^verbatim>\<open>_update\<close> does not receive it.\<close>

definition circuit_append ::
  "state \<Rightarrow> operation \<Rightarrow> mapping option \<Rightarrow> UpdateRule option \<Rightarrow> state \<times> error option" where
  "circuit_append s operation mapping rule_arg =
     (case operation of
        PyNone \<Rightarrow> (s, Some TypeMismatch)
      | Seq ops \<Rightarrow>
          append_iterable s (subscript0 ops) ops
            (case rule_arg of None \<Rightarrow> update_rule (circ s) | Some r \<Rightarrow> r)
      | OtherIterable first ops \<Rightarrow>
          append_iterable s first ops
            (case rule_arg of None \<Rightarrow> update_rule (circ s) | Some r \<Rightarrow> r)
      | Single x \<Rightarrow>
          append_iterable s (subscript0 [x]) [x]
            (case rule_arg of None \<Rightarrow> update_rule (circ s) | Some r \<Rightarrow> r))"

text \<open>A sequence of calls of \<^verbatim>\<open>append\<close> with one update rule; it stops at the first
  call that raises.\<close>

fun append_calls ::
  "state \<Rightarrow> (operation \<times> mapping option) list \<Rightarrow> UpdateRule option \<Rightarrow> state \<times> error option" where
  "append_calls s [] rule_arg = (s, None)"
| "append_calls s (call # rest) rule_arg =
     (case circuit_append s (fst call) (snd call) rule_arg of
        (s', Some e) \<Rightarrow> (s', Some e)
      | (s', None) \<Rightarrow> append_calls s' rest rule_arg)"

text \<open>The moment structure of the circuit: the instruction lists of its moments, in
  order.\<close>

definition moment_structure :: "state \<Rightarrow> instruction list list" where
  "moment_structure s = map (store s) (moments (circ s))"

text \<open>A state with a newly constructed circuit; the store may hold moments that the
  caller has built.\<close>

definition fresh_state :: "(mref \<Rightarrow> moment) \<Rightarrow> mref \<Rightarrow> circuit \<Rightarrow> state" where
  "fresh_state st n c = \<lparr>store = st, next_ref = n, circ = c\<rparr>"

section \<open>Properties of states\<close>

text \<open>Invariant I1 of a moment: the qubit sets of any two of its operations (at different
  positions of the list) are disjoint.\<close>

fun I1 :: "moment \<Rightarrow> bool" where
  "I1 [] = True"
| "I1 (op # rest) = ((\<forall>op' \<in> set rest. set (qubits op) \<inter> set (qubits op') = {}) \<and> I1 rest)"

text \<open>Every moment object of the store satisfies I1.\<close>

definition moments_disjoint :: "state \<Rightarrow> bool" where
  "moments_disjoint s = (\<forall>r. I1 (store s r))"

text \<open>Every binding list of the first table is an initial part of the binding list of
  the same symbol in the second.\<close>

definition table_extends :: "ptable \<Rightarrow> ptable \<Rightarrow> bool" where
  "table_extends t1 t2 =
     (\<forall>p specs. map_of t1 p = Some specs \<longrightarrow> (\<exists>more. map_of t2 p = Some (specs @ more)))"

text \<open>The second state retains what the first holds: the moments have the same content,
  the moment sequence of the first is an initial part of that of the second, and the
  parameter table has only grown.\<close>

definition placements_retained :: "state \<Rightarrow> state \<Rightarrow> bool" where
  "placements_retained s1 s2 \<longleftrightarrow>
     store s2 = store s1 \<and> prefix (moments (circ s1)) (moments (circ s2)) \<and>
     table_extends (parameter_table (circ s1)) (parameter_table (circ s2))"

text \<open>The symbols among the arguments of a gate, and of a list of instructions.\<close>

fun symbols_of :: "gate_param list \<Rightarrow> parameter list" where
  "symbols_of [] = []"
| "symbols_of (Num _ # rest) = symbols_of rest"
| "symbols_of (Sym p # rest) = p # symbols_of rest"

definition symbols :: "instruction list \<Rightarrow> parameter list" where
  "symbols ops = concat (map (\<lambda>op. symbols_of (gate_params op)) ops)"

text \<open>Different symbols of the set have different display names.\<close>

definition names_unique :: "parameter set \<Rightarrow> bool" where
  "names_unique S = (\<forall>p \<in> S. \<forall>q \<in> S. param_name p = param_name q \<longrightarrow> p = q)"

text \<open>A circuit on \<open>n\<close> qubits with default rule \<open>u\<close> whose first moment holds an
  operation, whose moments are allocated, and whose registered symbols are in \<open>S\<close>.\<close>

definition seeded :: "parameter set \<Rightarrow> nat \<Rightarrow> UpdateRule \<Rightarrow> state \<Rightarrow> bool" where
  "seeded S n u s \<longleftrightarrow>
     num_qubits (circ s) = n \<and> update_rule (circ s) = u \<and>
     fst ` set (parameter_table (circ s)) \<subseteq> S \<and>
     moments (circ s) \<noteq> [] \<and> store s (hd (moments (circ s))) \<noteq> [] \<and>
     (\<forall>r \<in> set (moments (circ s)). r < next_ref s)"

text \<open>The same state with another name and another default update rule of the circuit.\<close>

definition relabel :: "string option \<Rightarrow> UpdateRule \<Rightarrow> state \<Rightarrow> state" where
  "relabel nm u s = s\<lparr>circ := (circ s)\<lparr>name := nm, update_rule := u\<rparr>\<rparr>"

section \<open>Example values\<close>

text \<open>An instruction with object identity \<open>i\<close>, a gate without arguments, on the
  qubits \<open>qs\<close>; one with the single argument \<open>p\<close>.\<close>

definition plain_op :: "nat \<Rightarrow> int list \<Rightarrow> instruction" where
  "plain_op i qs = \<lparr>instr_id = i, gate_name = ''X'', gate_params = [], qubits = qs\<rparr>"

definition param_op :: "nat \<Rightarrow> gate_param \<Rightarrow> int list \<Rightarrow> instruction" where
  "param_op i p qs = \<lparr>instr_id = i, gate_name = ''RX'', gate_params = [p], qubits = qs\<rparr>"

definition theta :: parameter where
  "theta = \<lparr>param_id = 0, param_name = ''theta''\<rparr>"

definition theta' :: parameter where
  "theta' = \<lparr>param_id = 1, param_name = ''theta''\<rparr>"

text \<open>A new circuit on \<open>n\<close> qubits in a world without other moments.\<close>

definition new_circuit :: "int \<Rightarrow> UpdateRule \<Rightarrow> state" where
  "new_circuit n rule = fresh_state (\<lambda>_. []) 0 (Circuit n None rule)"

text \<open>A two-qubit circuit whose moments 0 and 1 hold one instruction on qubit 0 each.\<close>

definition two_moments :: state where
  "two_moments =
     \<lparr>store = (\<lambda>_. [])(0 := [plain_op 0 [0]], 1 := [plain_op 1 [0]]), next_ref = 2,
      circ = \<lparr>num_qubits = 2, moments = [0, 1], name = None, update_rule = EARLIEST,
              parameter_table = []\<rparr>\<rparr>"

text \<open>A parent circuit on three qubits without moments, and the one moment (reference 0)
  of a one-qubit circuit, which holds an instruction on qubit 0.\<close>

definition parent_and_sub :: state where
  "parent_and_sub =
     \<lparr>store = (\<lambda>_. [])(0 := [plain_op 0 [0]]), next_ref = 1,
      circ = Circuit 3 None EARLIEST\<rparr>"

section \<open>Basic facts\<close>

lemma check_dup_param_spec_iff:
  "check_dup_param_spec specs instr i \<longleftrightarrow> (instr, i) \<in> set specs"
  by (induction specs) auto

lemma map_of_table_extend_same:
  "map_of tbl p = Some specs \<Longrightarrow> map_of (table_extend tbl p b) p = Some (specs @ [b])"
  by (induction tbl) (auto simp: table_extend_def)

lemma map_of_table_extend_other:
  "q \<noteq> p \<Longrightarrow> map_of (table_extend tbl p b) q = map_of tbl q"
  by (induction tbl) (auto simp: table_extend_def)

lemma update_from_Other [simp]:
  "update_from s [Other] rule index = ((s, rule), None)"
  by simp

text \<open>\<^verbatim>\<open>append\<close> of one moment is \<open>append_moment\<close>.\<close>

lemma circuit_append_moment:
  "circuit_append s (Single (Mom m)) mapping (Some rule) = append_moment s m"
  by (simp add: circuit_append_def append_iterable_def subscript0_def update_def append_moment_def
      split: prod.splits option.splits)

section \<open>Appending nothing\<close>

text \<open>
  Claim C10. On a circuit without moments, \<^verbatim>\<open>append\<close> of an empty sequence raises
  Python's \<open>IndexError\<close> (from \<^verbatim>\<open>operation[0]\<close>), which is none of the circuit's own
  errors, and the circuit is as before; on a circuit with at least one moment the call
  returns normally and leaves the circuit unchanged.
\<close>

theorem append_empty_sequence:
  "(moments (circ s) = [] \<longrightarrow> circuit_append s (Seq []) mapping rule = (s, Some IndexError)) \<and>
   (moments (circ s) \<noteq> [] \<longrightarrow> circuit_append s (Seq []) mapping rule = (s, None))"
  by (simp add: circuit_append_def append_iterable_def subscript0_def update_def)

theorem append_empty_sequence_witness:
  "moments (circ (new_circuit 2 EARLIEST)) = [] \<and>
   circuit_append (new_circuit 2 EARLIEST) (Seq []) None None
     = (new_circuit 2 EARLIEST, Some IndexError) \<and>
   moments (circ two_moments) \<noteq> [] \<and>
   circuit_append two_moments (Seq []) None None = (two_moments, None)"
  using append_empty_sequence [of "new_circuit 2 EARLIEST" None None]
    append_empty_sequence [of two_moments None None]
  by (simp add: new_circuit_def fresh_state_def Circuit_def two_moments_def)

lemma moment_structure_create_empty:
  "moments (circ s) = [] \<Longrightarrow>
   moment_structure (create_new_moment s x) = [case x of None \<Rightarrow> [] | Some i \<Rightarrow> [i]]"
  by (simp add: moment_structure_def create_new_moment_def)

section \<open>Input that is not appendable\<close>

text \<open>
  Claim C9, evaluated. \<^verbatim>\<open>append\<close> of \<^verbatim>\<open>None\<close> raises \<^verbatim>\<open>TypeError\<close> and leaves the
  circuit unchanged. No other input is rejected for its type: an object of an unsupported
  type that is not iterable (an integer, say) is wrapped into a list, matches no branch of
  the \<^verbatim>\<open>if\<close>/\<^verbatim>\<open>elif\<close> chain of \<^verbatim>\<open>_update\<close>, which has no \<^verbatim>\<open>else\<close>, and is skipped, so
  the call returns without an error where the claim has \<open>TypeMismatch\<close>. The same
  happens to a list of such objects on a new two-qubit circuit, and to a set of them on a
  circuit that has moments. On a circuit without moments the set does raise
  \<^verbatim>\<open>TypeError\<close>, from the subscript \<^verbatim>\<open>operation[0]\<close>.
\<close>

theorem unsupported_input_is_skipped:
  "circuit_append s PyNone mapping rule = (s, Some TypeMismatch) \<and>
   circuit_append s (Single Other) mapping rule = (s, None) \<and>
   circuit_append (new_circuit 2 EARLIEST) (Seq [Other, Other]) None None
     = (new_circuit 2 EARLIEST, None) \<and>
   circuit_append two_moments (OtherIterable (Inl TypeMismatch) [Other, Other]) None None
     = (two_moments, None) \<and>
   circuit_append (new_circuit 2 EARLIEST) (OtherIterable (Inl TypeMismatch) [Other, Other]) None None
     = (new_circuit 2 EARLIEST, Some TypeMismatch)"
  by (simp add: circuit_append_def append_iterable_def subscript0_def update_def
      new_circuit_def fresh_state_def Circuit_def two_moments_def)

section \<open>Operations out of range\<close>

text \<open>
  Claim C4, as the code has it. \<^verbatim>\<open>append\<close> of an operation with a qubit index
  \<open>\<ge> num_qubits\<close> fails with \<open>OutOfRangeResource\<close> and places no operation. If the
  circuit had a moment before the call, the state is exactly as before. If it had none,
  the empty moment that \<^verbatim>\<open>append\<close> creates before \<^verbatim>\<open>_update\<close> validates the
  operation stays behind: the moment structure is one empty moment.
\<close>

theorem append_out_of_range:
  assumes "\<exists>q \<in> set (qubits op). q \<ge> int (num_qubits (circ s))"
  shows "circuit_append s (Single (Instr op)) mapping rule
           = (if moments (circ s) = [] then create_new_moment s None else s, Some OutOfRangeResource) \<and>
         moment_structure (fst (circuit_append s (Single (Instr op)) mapping rule))
           = (if moments (circ s) = [] then [[]] else moment_structure s)"
proof -
  from assms obtain q where "q \<in> set (qubits op)" and "\<not> q < int (num_qubits (circ s))"
    by force
  then have nr: "\<not> in_range (num_qubits (circ s)) op"
    unfolding in_range_def by blast
  have nq: "num_qubits (circ (create_new_moment s None)) = num_qubits (circ s)"
    by (simp add: create_new_moment_def)
  have 1: "circuit_append s (Single (Instr op)) mapping rule
           = (if moments (circ s) = [] then create_new_moment s None else s, Some OutOfRangeResource)"
    using nr by (simp add: circuit_append_def append_iterable_def subscript0_def update_def update_instruction_def nq)
  show ?thesis
    unfolding 1 by (simp add: moment_structure_create_empty)
qed

theorem append_out_of_range_witness:
  "(\<exists>q \<in> set (qubits (plain_op 2 [5])). q \<ge> int (num_qubits (circ two_moments))) \<and>
   circuit_append two_moments (Single (Instr (plain_op 2 [5]))) None None
     = (two_moments, Some OutOfRangeResource)"
  using append_out_of_range [of "plain_op 2 [5]" two_moments None None]
  by (simp add: plain_op_def two_moments_def)

text \<open>On a new two-qubit circuit the call with an operation on qubit 5 fails, and the
  number of moments goes from 0 to 1.\<close>

theorem append_out_of_range_fresh_counterexample:
  "snd (circuit_append (new_circuit 2 EARLIEST) (Single (Instr (plain_op 0 [5]))) None None)
     = Some OutOfRangeResource \<and>
   length (moments (circ (new_circuit 2 EARLIEST))) = 0 \<and>
   length (moments (circ (fst
     (circuit_append (new_circuit 2 EARLIEST) (Single (Instr (plain_op 0 [5]))) None None)))) = 1"
  by (simp add: new_circuit_def fresh_state_def Circuit_def plain_op_def circuit_append_def
      append_iterable_def subscript0_def update_def update_instruction_def in_range_def create_new_moment_def)

section \<open>Registration of parameters\<close>

text \<open>
  Claim C5. One registration step of \<^verbatim>\<open>_add_parameters\<close> for the symbol \<open>p\<close> at
  position \<open>i\<close> of \<open>instr\<close>: if \<open>p\<close> is in the table, the pair \<open>(instr, i)\<close> is
  appended to its bindings (the other entries are untouched) unless the pair is already
  recorded, in which case the table is unchanged and no error is raised; if \<open>p\<close> is
  not in the table and a registered symbol \<open>q\<close> has the same display name, the step
  fails with \<open>NameConflict\<close> and the table is as before.
\<close>

theorem register_parameter:
  "(map_of tbl p = Some specs \<and> (instr, i) \<notin> set specs \<longrightarrow>
      (\<exists>tbl'. add_parameter tbl instr i (Sym p) = Inr tbl' \<and>
              map_of tbl' p = Some (specs @ [(instr, i)]) \<and>
              (\<forall>q. q \<noteq> p \<longrightarrow> map_of tbl' q = map_of tbl q))) \<and>
   (map_of tbl p = Some specs \<and> (instr, i) \<in> set specs \<longrightarrow>
      add_parameter tbl instr i (Sym p) = Inr tbl) \<and>
   (map_of tbl p = None \<and> q \<in> fst ` set tbl \<and> param_name q = param_name p \<longrightarrow>
      add_parameter tbl instr i (Sym p) = Inl NameConflict \<and>
      add_parameters_from tbl instr i (Sym p # rest) = (tbl, Some NameConflict))"
proof (intro conjI impI)
  assume h: "map_of tbl p = Some specs \<and> (instr, i) \<notin> set specs"
  then have "add_parameter tbl instr i (Sym p) = Inr (table_extend tbl p (instr, i))"
    by (simp add: add_parameter_def check_dup_param_spec_iff)
  with h show "\<exists>tbl'. add_parameter tbl instr i (Sym p) = Inr tbl' \<and>
      map_of tbl' p = Some (specs @ [(instr, i)]) \<and> (\<forall>q. q \<noteq> p \<longrightarrow> map_of tbl' q = map_of tbl q)"
    by (simp add: map_of_table_extend_same map_of_table_extend_other)
next
  assume "map_of tbl p = Some specs \<and> (instr, i) \<in> set specs"
  then show "add_parameter tbl instr i (Sym p) = Inr tbl"
    by (simp add: add_parameter_def check_dup_param_spec_iff)
next
  assume h: "map_of tbl p = None \<and> q \<in> fst ` set tbl \<and> param_name q = param_name p"
  then have "param_name p \<in> set (get_names tbl)"
    by (force simp: get_names_def)
  with h show c: "add_parameter tbl instr i (Sym p) = Inl NameConflict"
    by (simp add: add_parameter_def)
  then show "add_parameters_from tbl instr i (Sym p # rest) = (tbl, Some NameConflict)"
    by simp
qed

theorem register_parameter_witness:
  "map_of [(theta, [(param_op 0 (Sym theta) [0], 0)])] theta = Some [(param_op 0 (Sym theta) [0], 0)] \<and>
   (param_op 1 (Sym theta) [1], 0) \<notin> set [(param_op 0 (Sym theta) [0], 0)] \<and>
   add_parameter [(theta, [(param_op 0 (Sym theta) [0], 0)])] (param_op 1 (Sym theta) [1]) 0 (Sym theta)
     = Inr [(theta, [(param_op 0 (Sym theta) [0], 0), (param_op 1 (Sym theta) [1], 0)])] \<and>
   (param_op 0 (Sym theta) [0], 0) \<in> set [(param_op 0 (Sym theta) [0], 0)] \<and>
   add_parameter [(theta, [(param_op 0 (Sym theta) [0], 0)])] (param_op 0 (Sym theta) [0]) 0 (Sym theta)
     = Inr [(theta, [(param_op 0 (Sym theta) [0], 0)])] \<and>
   map_of [(theta, [(param_op 0 (Sym theta) [0], 0)])] theta' = None \<and>
   theta \<in> fst ` set [(theta, [(param_op 0 (Sym theta) [0], 0)])] \<and>
   param_name theta = param_name theta' \<and>
   add_parameter [(theta, [(param_op 0 (Sym theta) [0], 0)])] (param_op 1 (Sym theta') [1]) 0 (Sym theta')
     = Inl NameConflict"
  using
    register_parameter [of "[(theta, [(param_op 0 (Sym theta) [0], 0)])]" theta
      "[(param_op 0 (Sym theta) [0], 0)]" "param_op 1 (Sym theta) [1]" 0 theta "[]"]
    register_parameter [of "[(theta, [(param_op 0 (Sym theta) [0], 0)])]" theta
      "[(param_op 0 (Sym theta) [0], 0)]" "param_op 0 (Sym theta) [0]" 0 theta "[]"]
    register_parameter [of "[(theta, [(param_op 0 (Sym theta) [0], 0)])]" theta'
      "[]" "param_op 1 (Sym theta') [1]" 0 theta "[]"]
  by (simp add: theta_def theta'_def param_op_def add_parameter_def table_extend_def)

section \<open>Sub-circuits\<close>

text \<open>
  Claim C2, evaluated. The result of \<^verbatim>\<open>append\<close> does not depend on \<open>mapping\<close>. A
  three-qubit circuit that receives, with the mapping \<open>[2]\<close>, a one-qubit circuit whose
  moment holds an instruction on qubit 0 ends with that instruction still on qubit 0: the
  resources are not rewritten through the mapping.
\<close>

theorem sub_circuit_mapping_ignored:
  "circuit_append s operation mapping rule = circuit_append s operation None rule \<and>
   moment_structure (fst (circuit_append parent_and_sub (Single (Circ [0])) (Some (MapList [2])) None))
     = [[plain_op 0 [0]]] \<and>
   qubits (plain_op 0 [0]) = [0]"
  by (simp add: circuit_append_def append_iterable_def subscript0_def update_def parent_and_sub_def Circuit_def
      append_moment_def update_moment_def in_range_def plain_op_def add_parameters_def
      list_insert_def moment_structure_def)

section \<open>The rule \<^verbatim>\<open>EARLIEST\<close>\<close>

text \<open>
  Claim C1, evaluated. On a new two-qubit circuit under \<^verbatim>\<open>EARLIEST\<close>, two instructions
  on qubit 0 fill the moments 0 and 1; an instruction on qubit 1 that follows is accepted
  by both moments, and the loop of \<^verbatim>\<open>_earliest_appended\<close>, which does not stop at the
  first moment that accepts, appends it to both: the operation is in two moments, not in
  exactly one.
\<close>

theorem earliest_places_in_every_accepting_moment:
  "(case append_calls (new_circuit 2 EARLIEST)
       [(Single (Instr (plain_op 0 [0])), None), (Single (Instr (plain_op 1 [0])), None),
        (Single (Instr (plain_op 2 [1])), None)] None
    of (s, e) \<Rightarrow> (moment_structure s, e))
   = ([[plain_op 0 [0], plain_op 2 [1]], [plain_op 1 [0], plain_op 2 [1]]], None)"
  by (simp add: new_circuit_def fresh_state_def Circuit_def circuit_append_def append_iterable_def subscript0_def
      update_def update_instruction_def in_range_def add_parameters_def place_def
      earliest_appended_def create_new_moment_def appendable_def Moment_append_def
      moment_structure_def plain_op_def)

section \<open>Invariant I1\<close>

lemma I1_snoc:
  "I1 (m @ [op]) \<longleftrightarrow> I1 m \<and> (\<forall>i \<in> set m. set (qubits i) \<inter> set (qubits op) = {})"
  by (induction m) auto

lemma appendable_disjoint:
  "appendable m op \<longleftrightarrow> (\<forall>i \<in> set m. set (qubits i) \<inter> set (qubits op) = {})"
  by (auto simp: appendable_def)

lemma I1_index:
  "I1 m \<longleftrightarrow> (\<forall>i < length m. \<forall>j < length m. i \<noteq> j \<longrightarrow>
     set (qubits (m ! i)) \<inter> set (qubits (m ! j)) = {})"
proof (induction m)
  case Nil
  then show ?case by simp
next
  case (Cons a m)
  show ?case
  proof
    assume h: "I1 (a # m)"
    show "\<forall>i < length (a # m). \<forall>j < length (a # m). i \<noteq> j \<longrightarrow>
       set (qubits ((a # m) ! i)) \<inter> set (qubits ((a # m) ! j)) = {}"
    proof (intro allI impI)
      fix i j assume "i < length (a # m)" "j < length (a # m)" "i \<noteq> j"
      with h Cons.IH show "set (qubits ((a # m) ! i)) \<inter> set (qubits ((a # m) ! j)) = {}"
        by (cases i; cases j) (auto simp: Int_commute)
    qed
  next
    assume h: "\<forall>i < length (a # m). \<forall>j < length (a # m). i \<noteq> j \<longrightarrow>
       set (qubits ((a # m) ! i)) \<inter> set (qubits ((a # m) ! j)) = {}"
    have 1: "\<forall>op' \<in> set m. set (qubits a) \<inter> set (qubits op') = {}"
    proof
      fix op' assume "op' \<in> set m"
      then obtain k where "k < length m" "m ! k = op'" by (auto simp: in_set_conv_nth)
      with h [rule_format, of 0 "Suc k"] show "set (qubits a) \<inter> set (qubits op') = {}" by simp
    qed
    have 2: "I1 m"
      unfolding Cons.IH
    proof (intro allI impI)
      fix i j assume "i < length m" "j < length m" "i \<noteq> j"
      with h [rule_format, of "Suc i" "Suc j"]
      show "set (qubits (m ! i)) \<inter> set (qubits (m ! j)) = {}" by simp
    qed
    from 1 2 show "I1 (a # m)" by simp
  qed
qed

lemma Moment_append_I1:
  "I1 m \<Longrightarrow> Moment_append m op = Inr m' \<Longrightarrow> I1 m'"
  by (auto simp: Moment_append_def I1_snoc appendable_disjoint split: if_splits)

lemma moments_disjoint_store:
  "moments_disjoint s \<Longrightarrow> I1 m \<Longrightarrow> moments_disjoint (s\<lparr>store := (store s)(r := m)\<rparr>)"
  by (simp add: moments_disjoint_def)

lemma store_add_parameters [simp]:
  "store (fst (add_parameters s instr)) = store s"
  by (simp add: add_parameters_def split: prod.splits)

lemma store_add_parameters_all [simp]:
  "store (fst (add_parameters_all s instrs)) = store s"
proof (induction instrs arbitrary: s)
  case Nil
  then show ?case by simp
next
  case (Cons i instrs)
  have "store (fst (add_parameters s i)) = store s" by simp
  then show ?case
    using Cons.IH [of "fst (add_parameters s i)"]
    by (cases "add_parameters s i") (auto split: option.splits)
qed

lemma moments_disjoint_create:
  "moments_disjoint s \<Longrightarrow> moments_disjoint (create_new_moment s x)"
  by (cases x) (simp_all add: moments_disjoint_def create_new_moment_def)

lemma moments_disjoint_earliest_scan:
  "moments_disjoint s \<Longrightarrow> moments_disjoint (fst (earliest_scan s rs op b))"
proof (induction rs arbitrary: s b)
  case Nil
  then show ?case by simp
next
  case (Cons r rs)
  show ?case
  proof (cases "appendable (store s r) op")
    case False
    with Cons show ?thesis by simp
  next
    case True
    then have ma: "Moment_append (store s r) op = Inr (store s r @ [op])"
      by (simp add: Moment_append_def)
    from Cons.prems have "I1 (store s r)" by (simp add: moments_disjoint_def)
    then have "I1 (store s r @ [op])" using ma by (rule Moment_append_I1)
    with Cons.prems have "moments_disjoint (s\<lparr>store := (store s)(r := store s r @ [op])\<rparr>)"
      by (rule moments_disjoint_store)
    then show ?thesis using True ma Cons.IH by simp
  qed
qed

lemma moments_disjoint_seed_or_new:
  "moments_disjoint s \<Longrightarrow> moments_disjoint (fst (seed_or_new s op))"
  by (auto simp: seed_or_new_def Moment_append_def moments_disjoint_create
      intro!: moments_disjoint_store split: list.splits)

lemma moments_disjoint_place:
  assumes "moments_disjoint s"
  shows "moments_disjoint (fst (fst (place s op rule)))"
proof (cases rule)
  case EARLIEST
  from assms have "moments_disjoint (fst (earliest_scan s (moments (circ s)) op False))"
    by (rule moments_disjoint_earliest_scan)
  then show ?thesis using EARLIEST
    by (auto simp: place_def earliest_appended_def moments_disjoint_create split: prod.splits sum.splits)
next
  case INLINE
  have "I1 (store s (last (moments (circ s))))"
    using assms by (simp add: moments_disjoint_def)
  then show ?thesis using INLINE assms
    by (auto simp: place_def Let_def Moment_append_def I1_snoc appendable_disjoint moments_disjoint_create
        intro!: moments_disjoint_store)
next
  case NEW
  then show ?thesis using moments_disjoint_seed_or_new [OF assms, of op]
    by (auto simp: place_def split: prod.splits)
next
  case NEW_THEN_INLINE
  then show ?thesis using moments_disjoint_seed_or_new [OF assms, of op]
    by (auto simp: place_def split: prod.splits option.splits)
next
  case OTHER_RULE
  then show ?thesis using assms by (simp add: place_def)
qed

lemma moments_disjoint_store_eq:
  "moments_disjoint s \<Longrightarrow> store s' = store s \<Longrightarrow> moments_disjoint s'"
  by (simp add: moments_disjoint_def)

lemma moments_disjoint_update_instruction:
  assumes "moments_disjoint s"
  shows "moments_disjoint (fst (fst (update_instruction s op rule)))"
proof -
  have "moments_disjoint (fst (add_parameters s op))"
    using assms by (rule moments_disjoint_store_eq) simp
  from moments_disjoint_place [OF this, of op rule] assms this show ?thesis
    by (auto simp: update_instruction_def split: prod.splits option.splits)
qed

lemma moments_disjoint_update_moment:
  assumes "moments_disjoint s"
  shows "moments_disjoint (fst (update_moment s m index))"
proof -
  obtain s1 e1 where a: "add_parameters_all s (store s m) = (s1, e1)"
    by (cases "add_parameters_all s (store s m)")
  have "store s1 = store s"
    using store_add_parameters_all [of s "store s m"] a by simp
  with assms have "moments_disjoint s1"
    by (simp add: moments_disjoint_def)
  with assms a show ?thesis
    by (auto simp: update_moment_def Let_def moments_disjoint_def split: option.splits)
qed

lemma moments_disjoint_append_circuit:
  "moments_disjoint s \<Longrightarrow> moments_disjoint (fst (append_circuit s ms))"
proof (induction ms arbitrary: s)
  case Nil
  then show ?case by simp
next
  case (Cons m ms)
  from Cons.prems have "moments_disjoint (fst (append_moment s m))"
    unfolding append_moment_def by (rule moments_disjoint_update_moment)
  with Cons show ?case
    by (auto split: prod.splits option.splits)
qed

lemma moments_disjoint_update_from:
  "moments_disjoint s \<Longrightarrow> moments_disjoint (fst (fst (update_from s ops rule index)))"
proof (induction s ops rule index rule: update_from.induct)
  case (1 s rule index)
  then show ?case by simp
next
  case (2 s op rest rule index)
  from "2.prems" have "moments_disjoint (fst (fst (update_instruction s op rule)))"
    by (rule moments_disjoint_update_instruction)
  with 2 show ?case by (auto split: prod.splits option.splits)
next
  case (3 s m rest rule index)
  from "3.prems" have "moments_disjoint (fst (update_moment s m index))"
    by (rule moments_disjoint_update_moment)
  with 3 show ?case by (auto split: prod.splits option.splits)
next
  case (4 s ms rest rule index)
  from "4.prems" have "moments_disjoint (fst (append_circuit s ms))"
    by (rule moments_disjoint_append_circuit)
  with 4 show ?case by (auto split: prod.splits option.splits)
next
  case (5 s rest rule index)
  then show ?case by simp
qed

lemma moments_disjoint_append_iterable:
  assumes "moments_disjoint s"
  shows "moments_disjoint (fst (append_iterable s first ops rule))"
proof -
  have "moments_disjoint (fst (update s' ops rule i))" if "moments_disjoint s'" for s' i
    using moments_disjoint_update_from [OF that, of ops rule i]
    by (auto simp: update_def split: prod.splits)
  with assms moments_disjoint_create [OF assms, of None] show ?thesis
    by (auto simp: append_iterable_def Let_def split: sum.splits)
qed


text \<open>
  Claim C3. If every moment object satisfies I1 (the moments of the circuit and the
  moments handed to \<^verbatim>\<open>append\<close>), then after any call of \<^verbatim>\<open>append\<close>, for any kind of
  input and any update rule, whether it returns or raises, every moment object satisfies
  I1; in particular, in every moment of the circuit's sequence the qubit sets of two
  operations at different positions are disjoint.
\<close>

theorem moments_stay_disjoint:
  assumes "moments_disjoint s"
    and "circuit_append s operation mapping rule = (s', e)"
  shows "moments_disjoint s' \<and>
    (\<forall>r \<in> set (moments (circ s')). \<forall>i < length (store s' r). \<forall>j < length (store s' r).
       i \<noteq> j \<longrightarrow> set (qubits (store s' r ! i)) \<inter> set (qubits (store s' r ! j)) = {})"
proof -
  have "moments_disjoint (fst (circuit_append s operation mapping rule))"
    using assms(1) by (cases operation) (simp_all add: circuit_append_def moments_disjoint_append_iterable)
  with assms(2) have d: "moments_disjoint s'" by simp
  then have "\<forall>r. I1 (store s' r)" by (simp add: moments_disjoint_def)
  then show ?thesis using d by (simp add: I1_index)
qed

theorem moments_stay_disjoint_witness:
  "moments_disjoint two_moments \<and>
   moment_structure (fst (circuit_append two_moments (Seq [Instr (plain_op 2 [1]), Mom 0]) None (Some INLINE)))
     = [[plain_op 0 [0]], [plain_op 1 [0], plain_op 2 [1]], [plain_op 0 [0]]] \<and>
   moments_disjoint (fst (circuit_append two_moments (Seq [Instr (plain_op 2 [1]), Mom 0]) None (Some INLINE)))"
proof -
  have h: "moments_disjoint two_moments"
    by (simp add: moments_disjoint_def two_moments_def plain_op_def)
  have e: "moment_structure (fst (circuit_append two_moments (Seq [Instr (plain_op 2 [1]), Mom 0]) None (Some INLINE)))
     = [[plain_op 0 [0]], [plain_op 1 [0], plain_op 2 [1]], [plain_op 0 [0]]]"
    by (simp add: two_moments_def circuit_append_def append_iterable_def subscript0_def update_def
        update_instruction_def update_moment_def in_range_def add_parameters_def place_def
        appendable_def Moment_append_def list_insert_def moment_structure_def plain_op_def)
  from moments_stay_disjoint [OF h, of "Seq [Instr (plain_op 2 [1]), Mom 0]" None "Some INLINE"
      "fst (circuit_append two_moments (Seq [Instr (plain_op 2 [1]), Mom 0]) None (Some INLINE))"
      "snd (circuit_append two_moments (Seq [Instr (plain_op 2 [1]), Mom 0]) None (Some INLINE))"]
  show ?thesis using h e by simp
qed

section \<open>Calls that fail part-way\<close>

lemma table_extends_refl [simp]: "table_extends t t"
  by (simp add: table_extends_def)

lemma table_extends_trans:
  "table_extends t1 t2 \<Longrightarrow> table_extends t2 t3 \<Longrightarrow> table_extends t1 t3"
  unfolding table_extends_def by (metis append_assoc)

lemma table_extends_table_extend: "table_extends tbl (table_extend tbl p b)"
  unfolding table_extends_def
proof (intro allI impI)
  fix q specs assume h: "map_of tbl q = Some specs"
  show "\<exists>more. map_of (table_extend tbl p b) q = Some (specs @ more)"
  proof (cases "q = p")
    case True
    with h show ?thesis by (auto simp: map_of_table_extend_same)
  next
    case False
    with h show ?thesis by (auto simp: map_of_table_extend_other intro: exI [of _ "[]"])
  qed
qed

lemma table_extends_table_new: "table_extends tbl (table_new tbl p b)"
  unfolding table_extends_def table_new_def
  by (auto simp: map_add_Some_iff intro: exI [of _ "[]"])

lemma table_extends_add_parameter:
  "add_parameter tbl instr i param = Inr tbl' \<Longrightarrow> table_extends tbl tbl'"
  by (auto simp: add_parameter_def table_extends_table_extend table_extends_table_new
      split: gate_param.splits option.splits if_splits)

lemma table_extends_add_parameters_from:
  "table_extends tbl (fst (add_parameters_from tbl instr i ps))"
proof (induction ps arbitrary: tbl i)
  case Nil
  then show ?case by simp
next
  case (Cons p ps)
  show ?case
  proof (cases "add_parameter tbl instr i p")
    case (Inl e)
    then show ?thesis by simp
  next
    case (Inr tbl')
    then have "table_extends tbl tbl'" by (rule table_extends_add_parameter)
    then show ?thesis using Inr Cons.IH [of tbl' "Suc i"]
      by (auto intro: table_extends_trans)
  qed
qed

lemma placements_retained_refl [simp]: "placements_retained s s"
  by (simp add: placements_retained_def)

lemma placements_retained_trans:
  "placements_retained s1 s2 \<Longrightarrow> placements_retained s2 s3 \<Longrightarrow> placements_retained s1 s3"
  unfolding placements_retained_def
  by (auto intro: table_extends_trans prefix_order.trans)

lemma placements_retained_add_parameters:
  "placements_retained s (fst (add_parameters s instr))"
  using table_extends_add_parameters_from [of "parameter_table (circ s)" instr 0 "gate_params instr"]
  by (auto simp: add_parameters_def placements_retained_def split: prod.splits)

lemma frame_add_parameters [simp]:
  "moments (circ (fst (add_parameters s instr))) = moments (circ s)"
  "num_qubits (circ (fst (add_parameters s instr))) = num_qubits (circ s)"
  "next_ref (fst (add_parameters s instr)) = next_ref s"
  by (simp_all add: add_parameters_def split: prod.splits)

lemma frame_add_parameters_all [simp]:
  "moments (circ (fst (add_parameters_all s instrs))) = moments (circ s) \<and>
   num_qubits (circ (fst (add_parameters_all s instrs))) = num_qubits (circ s) \<and>
   next_ref (fst (add_parameters_all s instrs)) = next_ref s"
proof (induction instrs arbitrary: s)
  case Nil
  then show ?case by simp
next
  case (Cons i instrs)
  show ?case
    using Cons.IH [of "fst (add_parameters s i)"] frame_add_parameters [of s i]
    by (cases "add_parameters s i") (auto split: option.splits)
qed

lemma placements_retained_add_parameters_all:
  "placements_retained s (fst (add_parameters_all s instrs))"
proof (induction instrs arbitrary: s)
  case Nil
  then show ?case by simp
next
  case (Cons i instrs)
  show ?case
    using placements_retained_add_parameters [of s i] Cons.IH [of "fst (add_parameters s i)"]
    by (auto split: prod.splits option.splits intro: placements_retained_trans)
qed

lemma earliest_scan_returns: "\<exists>b'. snd (earliest_scan s rs op b) = Inr b'"
  by (induction rs arbitrary: s b) (auto simp: Moment_append_def)

lemma seed_or_new_fails:
  "seed_or_new s op = (s', Some e) \<Longrightarrow> s' = s"
  by (auto simp: seed_or_new_def Moment_append_def split: list.splits if_splits)

lemma place_fails:
  assumes "place s op rule = ((s', rule'), Some e)"
  shows "s' = s"
proof (cases rule)
  case EARLIEST
  obtain b' where "snd (earliest_scan s (moments (circ s)) op False) = Inr b'"
    using earliest_scan_returns by blast
  with assms EARLIEST show ?thesis
    by (auto simp: place_def earliest_appended_def split: prod.splits sum.splits if_splits)
next
  case INLINE
  with assms show ?thesis
    by (auto simp: place_def Let_def Moment_append_def split: if_splits)
next
  case NEW
  with assms show ?thesis
    by (auto simp: place_def split: prod.splits dest: seed_or_new_fails)
next
  case NEW_THEN_INLINE
  with assms show ?thesis
    by (auto simp: place_def split: prod.splits option.splits dest: seed_or_new_fails)
next
  case OTHER_RULE
  with assms show ?thesis by (simp add: place_def)
qed

lemma update_instruction_fails:
  assumes "update_instruction s op rule = ((s', rule'), Some e)"
  shows "placements_retained s s'"
proof -
  obtain s1 e1 where a: "add_parameters s op = (s1, e1)"
    by (cases "add_parameters s op")
  have r: "placements_retained s s1"
    using placements_retained_add_parameters [of s op] a by simp
  from assms a r show ?thesis
    by (auto simp: update_instruction_def split: sum.splits if_splits option.splits dest: place_fails)
qed

lemma update_moment_fails:
  assumes "update_moment s m index = (s', Some e)"
  shows "placements_retained s s'"
proof -
  obtain s1 e1 where a: "add_parameters_all s (store s m) = (s1, e1)"
    by (cases "add_parameters_all s (store s m)")
  have r: "placements_retained s s1"
    using placements_retained_add_parameters_all [of s "store s m"] a by simp
  from assms a r show ?thesis
    by (auto simp: update_moment_def Let_def split: if_splits option.splits)
qed

lemma list_insert_end [simp]: "list_insert xs (length xs) x = xs @ [x]"
  by (simp add: list_insert_def)

lemma placements_retained_append_moment:
  "placements_retained s (fst (append_moment s m))"
proof -
  obtain s1 e1 where a: "add_parameters_all s (store s m) = (s1, e1)"
    by (cases "add_parameters_all s (store s m)")
  have r: "placements_retained s s1"
    using placements_retained_add_parameters_all [of s "store s m"] a by simp
  have "moments (circ s1) = moments (circ s)"
    using frame_add_parameters_all [of s "store s m"] a by simp
  with a r show ?thesis
    by (auto simp: append_moment_def update_moment_def Let_def placements_retained_def
        split: if_splits option.splits)
qed

lemma placements_retained_append_circuit:
  "placements_retained s (fst (append_circuit s ms))"
proof (induction ms arbitrary: s)
  case Nil
  then show ?case by simp
next
  case (Cons m ms)
  show ?case
    using placements_retained_append_moment [of s m] Cons.IH [of "fst (append_moment s m)"]
    by (auto split: prod.splits option.splits intro: placements_retained_trans)
qed

lemma update_from_append:
  "update_from s (xs @ ys) rule index =
     (case update_from s xs rule index of
        ((s1, rule1), None) \<Rightarrow> update_from s1 ys rule1 index
      | ((s1, rule1), Some e) \<Rightarrow> ((s1, rule1), Some e))"
  by (induction s xs rule index rule: update_from.induct)
    (auto split: prod.splits option.splits)

lemma update_from_single_fails:
  assumes "update_from s [y] rule index = ((s', rule'), Some e)"
  shows "placements_retained s s'"
proof (cases y)
  case (Instr op)
  with assms show ?thesis
    by (auto split: prod.splits option.splits dest: update_instruction_fails)
next
  case (Mom m)
  with assms show ?thesis
    by (auto split: prod.splits option.splits dest: update_moment_fails)
next
  case (Circ ms)
  with assms placements_retained_append_circuit [of s ms] show ?thesis
    by (auto split: prod.splits option.splits)
next
  case Other
  with assms show ?thesis by simp
qed

text \<open>The state in which \<^verbatim>\<open>_update\<close> starts and the index it is given depend on the
  first element of the sequence only.\<close>

lemma append_iterable_update:
  "append_iterable s (subscript0 (x # xs)) (x # xs) rule =
     update (if moments (circ s) = [] \<and> is_Instruction x then create_new_moment s None else s)
       (x # xs) rule
       (int (length (moments (circ
          (if moments (circ s) = [] \<and> is_Instruction x then create_new_moment s None else s)))))"
  by (simp add: append_iterable_def subscript0_def Let_def)


text \<open>
  Claim C7. If \<^verbatim>\<open>append\<close> of the sequence \<open>xs\<close> succeeds and \<^verbatim>\<open>append\<close> of \<open>xs\<close>
  followed by \<open>y\<close> fails with \<open>e\<close>, then \<^verbatim>\<open>append\<close> of any sequence that starts with
  \<open>xs\<close> and \<open>y\<close> raises \<open>e\<close> at \<open>y\<close>, and the state it leaves retains the state
  that the elements of \<open>xs\<close> produced: the contents of all moments, the moment
  sequence and the bindings of the parameter table.
\<close>

theorem append_not_atomic:
  assumes "circuit_append s (Seq xs) mapping rule = (s1, None)"
    and "circuit_append s (Seq (xs @ [y])) mapping rule = (s2, Some e)"
  shows "circuit_append s (Seq (xs @ y # ys)) mapping rule = (s2, Some e) \<and>
         placements_retained s1 s2"
proof -
  define r where "r = (case rule of None \<Rightarrow> update_rule (circ s) | Some r \<Rightarrow> r)"
  have "\<exists>s0 i. \<forall>zs. append_iterable s (subscript0 (xs @ zs)) (xs @ zs) r = update s0 (xs @ zs) r i"
  proof (cases xs)
    case Nil
    with assms(1) have "moments (circ s) \<noteq> []"
      by (auto simp: circuit_append_def append_iterable_def subscript0_def)
    then show ?thesis by (auto simp: append_iterable_def subscript0_def)
  next
    case (Cons x xs')
    then show ?thesis by (auto simp: append_iterable_update)
  qed
  then obtain s0 i where
    u: "\<And>zs. append_iterable s (subscript0 (xs @ zs)) (xs @ zs) r = update s0 (xs @ zs) r i"
    by blast
  have "update s0 xs r i = (s1, None)"
    using assms(1) u [of "[]"] by (simp add: circuit_append_def r_def)
  then obtain r1 where 1: "update_from s0 xs r i = ((s1, r1), None)"
    by (auto simp: update_def split: prod.splits)
  have "update s0 (xs @ [y]) r i = (s2, Some e)"
    using assms(2) u [of "[y]"] by (simp add: circuit_append_def r_def)
  then obtain r2 where 2: "update_from s1 [y] r1 i = ((s2, r2), Some e)"
    by (auto simp: update_def update_from_append 1 split: prod.splits)
  have "update_from s1 ([y] @ ys) r1 i = ((s2, r2), Some e)"
    unfolding update_from_append [of s1 "[y]"] 2 by simp
  then have "update_from s0 (xs @ [y] @ ys) r i = ((s2, r2), Some e)"
    unfolding update_from_append [of s0 xs] 1 by simp
  then have "circuit_append s (Seq (xs @ y # ys)) mapping rule = (s2, Some e)"
    using u [of "y # ys"] by (simp add: circuit_append_def r_def update_def)
  moreover have "placements_retained s1 s2"
    using 2 by (rule update_from_single_fails)
  ultimately show ?thesis by simp
qed

theorem append_not_atomic_witness:
  "snd (circuit_append (new_circuit 2 INLINE) (Seq [Instr (plain_op 0 [0]), Instr (plain_op 1 [0])]) None None) = None \<and>
   snd (circuit_append (new_circuit 2 INLINE)
          (Seq ([Instr (plain_op 0 [0]), Instr (plain_op 1 [0])] @ [Instr (plain_op 2 [5])])) None None)
     = Some OutOfRangeResource \<and>
   snd (circuit_append (new_circuit 2 INLINE)
          (Seq ([Instr (plain_op 0 [0]), Instr (plain_op 1 [0])] @ Instr (plain_op 2 [5]) # [Instr (plain_op 3 [1])]))
          None None)
     = Some OutOfRangeResource \<and>
   moment_structure (fst (circuit_append (new_circuit 2 INLINE)
          (Seq ([Instr (plain_op 0 [0]), Instr (plain_op 1 [0])] @ Instr (plain_op 2 [5]) # [Instr (plain_op 3 [1])]))
          None None))
     = [[plain_op 0 [0]], [plain_op 1 [0]]]"
proof -
  let ?s = "new_circuit 2 INLINE"
  let ?xs = "[Instr (plain_op 0 [0]), Instr (plain_op 1 [0])]"
  let ?y = "Instr (plain_op 2 [5])"
  note defs = new_circuit_def fresh_state_def Circuit_def circuit_append_def append_iterable_def subscript0_def
    update_def update_instruction_def in_range_def add_parameters_def place_def
    create_new_moment_def appendable_def Moment_append_def moment_structure_def plain_op_def
  have 1: "snd (circuit_append ?s (Seq ?xs) None None) = None"
    by (simp add: defs)
  have 2: "snd (circuit_append ?s (Seq (?xs @ [?y])) None None) = Some OutOfRangeResource"
    by (simp add: defs)
  have 3: "moment_structure (fst (circuit_append ?s (Seq (?xs @ [?y])) None None))
      = [[plain_op 0 [0]], [plain_op 1 [0]]]"
    by (simp add: defs)
  have a: "circuit_append ?s (Seq ?xs) None None = (fst (circuit_append ?s (Seq ?xs) None None), None)"
    using 1 by (simp add: prod_eq_iff)
  have b: "circuit_append ?s (Seq (?xs @ [?y])) None None
      = (fst (circuit_append ?s (Seq (?xs @ [?y])) None None), Some OutOfRangeResource)"
    using 2 by (simp add: prod_eq_iff)
  from append_not_atomic [OF a b, of "[Instr (plain_op 3 [1])]"] 1 2 3
  show ?thesis by simp
qed

section \<open>The rule \<^verbatim>\<open>NEW\<close>\<close>

lemma keys_table_extend [simp]: "fst ` set (table_extend tbl p b) = fst ` set tbl"
  by (induction tbl) (auto simp: table_extend_def)

lemma add_parameter_succeeds:
  assumes "names_unique S" and "fst ` set tbl \<subseteq> S" and "set (symbols_of [param]) \<subseteq> S"
  shows "\<exists>tbl'. add_parameter tbl instr i param = Inr tbl' \<and> fst ` set tbl' \<subseteq> S"
proof (cases param)
  case (Num x)
  with assms show ?thesis by (simp add: add_parameter_def)
next
  case (Sym p)
  with assms(3) have pS: "p \<in> S" by simp
  show ?thesis
  proof (cases "map_of tbl p")
    case (Some specs)
    with Sym assms(2) show ?thesis by (simp add: add_parameter_def)
  next
    case None
    then have notin: "p \<notin> fst ` set tbl" by (simp add: map_of_eq_None_iff)
    have "param_name p \<notin> set (get_names tbl)"
    proof
      assume "param_name p \<in> set (get_names tbl)"
      then obtain q where q: "q \<in> fst ` set tbl" "param_name q = param_name p"
        by (force simp: get_names_def)
      with assms(1,2) pS have "q = p" by (auto simp: names_unique_def)
      with q notin show False by simp
    qed
    with None Sym assms(2) pS show ?thesis
      by (simp add: add_parameter_def table_new_def)
  qed
qed

lemma add_parameters_from_succeeds:
  assumes "names_unique S"
  shows "fst ` set tbl \<subseteq> S \<Longrightarrow> set (symbols_of ps) \<subseteq> S \<Longrightarrow>
    snd (add_parameters_from tbl instr i ps) = None \<and>
    fst ` set (fst (add_parameters_from tbl instr i ps)) \<subseteq> S"
proof (induction ps arbitrary: tbl i)
  case Nil
  then show ?case by simp
next
  case (Cons p ps)
  from Cons.prems(2) have one: "set (symbols_of [p]) \<subseteq> S"
    by (cases p) auto
  from Cons.prems(2) have rest: "set (symbols_of ps) \<subseteq> S"
    by (cases p) auto
  from add_parameter_succeeds [OF assms Cons.prems(1) one, of instr i] obtain tbl' where
    t: "add_parameter tbl instr i p = Inr tbl'" "fst ` set tbl' \<subseteq> S"
    by blast
  from Cons.IH [OF t(2) rest, of "Suc i"] t(1) show ?case by simp
qed

lemma add_parameters_succeeds:
  assumes "names_unique S" and "fst ` set (parameter_table (circ s)) \<subseteq> S"
    and "set (symbols_of (gate_params op)) \<subseteq> S"
  shows "snd (add_parameters s op) = None \<and>
    fst ` set (parameter_table (circ (fst (add_parameters s op)))) \<subseteq> S"
proof -
  obtain tbl e where a: "add_parameters_from (parameter_table (circ s)) op 0 (gate_params op) = (tbl, e)"
    by (cases "add_parameters_from (parameter_table (circ s)) op 0 (gate_params op)")
  with add_parameters_from_succeeds [OF assms, of op 0] have "e = None" "fst ` set tbl \<subseteq> S"
    by simp_all
  with a show ?thesis by (simp add: add_parameters_def)
qed

lemma update_rule_add_parameters [simp]:
  "update_rule (circ (fst (add_parameters s instr))) = update_rule (circ s)"
  by (simp add: add_parameters_def split: prod.splits)

lemma seed_or_new_seeded:
  "moments (circ s) \<noteq> [] \<Longrightarrow> store s (hd (moments (circ s))) \<noteq> [] \<Longrightarrow>
   seed_or_new s op = (create_new_moment s (Some op), None)"
  by (cases "moments (circ s)") (simp_all add: seed_or_new_def)

lemma moment_structure_create:
  assumes "\<forall>r \<in> set (moments (circ s)). r < next_ref s"
  shows "moment_structure (create_new_moment s (Some op)) = moment_structure s @ [[op]]"
proof -
  from assms have "next_ref s \<notin> set (moments (circ s))" by auto
  then show ?thesis
    by (simp add: moment_structure_def create_new_moment_def map_fun_upd)
qed

lemma seeded_create:
  assumes "seeded S n u s"
  shows "seeded S n u (create_new_moment s (Some op))"
proof -
  from assms have "hd (moments (circ s)) \<noteq> next_ref s"
    by (cases "moments (circ s)") (auto simp: seeded_def)
  with assms show ?thesis
    by (auto simp: seeded_def create_new_moment_def less_Suc_eq)
qed

lemma update_instruction_NEW_seeded:
  assumes "names_unique S" and "seeded S n u s" and "in_range n op"
    and "set (symbols_of (gate_params op)) \<subseteq> S"
  shows "\<exists>s'. update_instruction s op NEW = ((s', NEW), None) \<and> seeded S n u s' \<and>
           moment_structure s' = moment_structure s @ [[op]]"
proof -
  obtain s1 e1 where a: "add_parameters s op = (s1, e1)"
    by (cases "add_parameters s op")
  from assms(2) have keys: "fst ` set (parameter_table (circ s)) \<subseteq> S"
    by (simp add: seeded_def)
  from add_parameters_succeeds [OF assms(1) keys assms(4)] a
  have ok: "e1 = None" and keys1: "fst ` set (parameter_table (circ s1)) \<subseteq> S"
    by simp_all
  have fr: "store s1 = store s" "moments (circ s1) = moments (circ s)" "next_ref s1 = next_ref s"
    "num_qubits (circ s1) = num_qubits (circ s)" "update_rule (circ s1) = update_rule (circ s)"
    using frame_add_parameters [of s op] store_add_parameters [of s op] update_rule_add_parameters [of s op] a by simp_all
  from assms(2) keys1 fr have s1: "seeded S n u s1"
    by (simp add: seeded_def)
  then have p: "place s1 op NEW = ((create_new_moment s1 (Some op), NEW), None)"
    by (simp add: place_def seed_or_new_seeded seeded_def)
  have u: "update_instruction s op NEW = ((create_new_moment s1 (Some op), NEW), None)"
    using assms(2,3) a ok p by (simp add: update_instruction_def seeded_def)
  have "moment_structure (create_new_moment s1 (Some op)) = moment_structure s1 @ [[op]]"
    using s1 by (intro moment_structure_create) (simp add: seeded_def)
  moreover have "moment_structure s1 = moment_structure s"
    using fr by (simp add: moment_structure_def)
  ultimately show ?thesis
    using u seeded_create [OF s1, of op] by simp
qed

lemma update_from_NEW_seeded:
  assumes "names_unique S"
  shows "seeded S n u s \<Longrightarrow> \<forall>op \<in> set ops. in_range n op \<Longrightarrow> set (symbols ops) \<subseteq> S \<Longrightarrow>
    \<exists>s'. update_from s (map Instr ops) NEW index = ((s', NEW), None) \<and> seeded S n u s' \<and>
         moment_structure s' = moment_structure s @ map (\<lambda>op. [op]) ops"
proof (induction ops arbitrary: s)
  case Nil
  then show ?case by simp
next
  case (Cons op ops)
  from Cons.prems have "in_range n op" "set (symbols_of (gate_params op)) \<subseteq> S"
    by (simp_all add: symbols_def)
  from update_instruction_NEW_seeded [OF assms Cons.prems(1) this]
  obtain s1 where 1: "update_instruction s op NEW = ((s1, NEW), None)" "seeded S n u s1"
    "moment_structure s1 = moment_structure s @ [[op]]"
    by blast
  from Cons.prems have "\<forall>op \<in> set ops. in_range n op" "set (symbols ops) \<subseteq> S"
    by (simp_all add: symbols_def)
  from Cons.IH [OF 1(2) this]
  obtain s' where 2: "update_from s1 (map Instr ops) NEW index = ((s', NEW), None)"
    "seeded S n u s'" "moment_structure s' = moment_structure s1 @ map (\<lambda>op. [op]) ops"
    by blast
  from 1 2 show ?case by simp
qed

text \<open>The first operation on a circuit without moments.\<close>

lemma update_instruction_NEW_first:
  assumes "names_unique S" and "moments (circ s) = []"
    and "fst ` set (parameter_table (circ s)) \<subseteq> S"
    and "in_range (num_qubits (circ s)) op" and "set (symbols_of (gate_params op)) \<subseteq> S"
  shows "\<exists>s'. update_instruction (create_new_moment s None) op NEW = ((s', NEW), None) \<and>
           seeded S (num_qubits (circ s)) (update_rule (circ s)) s' \<and> moment_structure s' = [[op]]"
proof -
  let ?s0 = "create_new_moment s None"
  obtain s1 e1 where a: "add_parameters ?s0 op = (s1, e1)"
    by (cases "add_parameters ?s0 op")
  have keys0: "fst ` set (parameter_table (circ ?s0)) \<subseteq> S"
    using assms(3) by (simp add: create_new_moment_def)
  from add_parameters_succeeds [OF assms(1) keys0 assms(5)] a
  have ok: "e1 = None" and keys1: "fst ` set (parameter_table (circ s1)) \<subseteq> S"
    by simp_all
  have fr: "store s1 = store ?s0" "moments (circ s1) = moments (circ ?s0)"
    "next_ref s1 = next_ref ?s0" "num_qubits (circ s1) = num_qubits (circ ?s0)"
    "update_rule (circ s1) = update_rule (circ ?s0)"
    using frame_add_parameters [of ?s0 op] store_add_parameters [of ?s0 op] update_rule_add_parameters [of ?s0 op] a by simp_all
  have m1: "moments (circ s1) = [next_ref s]" and st1: "store s1 (next_ref s) = []"
    and n1: "next_ref s1 = Suc (next_ref s)" and nq: "num_qubits (circ s1) = num_qubits (circ s)"
    and ur: "update_rule (circ s1) = update_rule (circ s)"
    using assms(2) fr by (simp_all add: create_new_moment_def)
  let ?s2 = "s1\<lparr>store := (store s1)(next_ref s := [op])\<rparr>"
  have p: "place s1 op NEW = ((?s2, NEW), None)"
    using m1 st1 by (simp add: place_def seed_or_new_def Moment_append_def appendable_def)
  have nq0: "num_qubits (circ ?s0) = num_qubits (circ s)"
    by (simp add: create_new_moment_def)
  have u: "update_instruction ?s0 op NEW = ((?s2, NEW), None)"
    using assms(4) a ok p by (simp add: update_instruction_def nq0)
  have "seeded S (num_qubits (circ s)) (update_rule (circ s)) ?s2"
    using keys1 m1 n1 nq ur by (simp add: seeded_def)
  moreover have "moment_structure ?s2 = [[op]]"
    using m1 by (simp add: moment_structure_def)
  ultimately show ?thesis using u by blast
qed

lemma append_single_NEW_seeded:
  assumes "names_unique S" and "seeded S n u s" and "in_range n op"
    and "set (symbols_of (gate_params op)) \<subseteq> S"
    and "(case rule of None \<Rightarrow> u | Some r \<Rightarrow> r) = NEW"
  shows "\<exists>s'. circuit_append s (Single (Instr op)) mapping rule = (s', None) \<and> seeded S n u s' \<and>
           moment_structure s' = moment_structure s @ [[op]]"
proof -
  from update_instruction_NEW_seeded [OF assms(1-4)] obtain s' where
    1: "update_instruction s op NEW = ((s', NEW), None)" "seeded S n u s'"
       "moment_structure s' = moment_structure s @ [[op]]"
    by blast
  from assms(2,5) have "moments (circ s) \<noteq> []"
    "(case rule of None \<Rightarrow> update_rule (circ s) | Some r \<Rightarrow> r) = NEW"
    by (simp_all add: seeded_def split: option.splits)
  with 1(1) have "circuit_append s (Single (Instr op)) mapping rule = (s', None)"
    by (simp add: circuit_append_def append_iterable_def subscript0_def update_def)
  with 1 show ?thesis by blast
qed

lemma append_calls_NEW_seeded:
  assumes "names_unique S" and "(case rule of None \<Rightarrow> u | Some r \<Rightarrow> r) = NEW"
  shows "seeded S n u s \<Longrightarrow> \<forall>op \<in> set ops. in_range n op \<Longrightarrow> set (symbols ops) \<subseteq> S \<Longrightarrow>
    \<exists>s'. append_calls s (map (\<lambda>op. (Single (Instr op), mapping)) ops) rule = (s', None) \<and>
         seeded S n u s' \<and> moment_structure s' = moment_structure s @ map (\<lambda>op. [op]) ops"
proof (induction ops arbitrary: s)
  case Nil
  then show ?case by simp
next
  case (Cons op ops)
  from Cons.prems have "in_range n op" "set (symbols_of (gate_params op)) \<subseteq> S"
    by (simp_all add: symbols_def)
  from append_single_NEW_seeded [OF assms(1) Cons.prems(1) this assms(2), of mapping]
  obtain s1 where 1: "circuit_append s (Single (Instr op)) mapping rule = (s1, None)"
    "seeded S n u s1" "moment_structure s1 = moment_structure s @ [[op]]"
    by blast
  from Cons.prems have "\<forall>op \<in> set ops. in_range n op" "set (symbols ops) \<subseteq> S"
    by (simp_all add: symbols_def)
  from Cons.IH [OF 1(2) this]
  obtain s' where 2: "append_calls s1 (map (\<lambda>op. (Single (Instr op), mapping)) ops) rule = (s', None)"
    "seeded S n u s'" "moment_structure s' = moment_structure s1 @ map (\<lambda>op. [op]) ops"
    by blast
  from 1 2 show ?case by simp
qed


text \<open>
  Claim C8. Let \<open>ops\<close> be a non-empty list of operations that are in range for the
  circuit and whose symbols have different display names, and let the rule in effect be
  \<^verbatim>\<open>NEW\<close> (given to \<^verbatim>\<open>append\<close>, or the default of the circuit). Appended to a new
  circuit, in one call as a sequence or one call per operation, they all are accepted and
  the circuit has exactly one moment per operation, in order, each holding just that
  operation: as many moments as operations. This covers every number \<open>N > 1\<close> of
  operations (and \<open>N = 1\<close>).
\<close>

theorem new_rule_one_operation_per_moment:
  assumes "ops \<noteq> []"
    and "\<forall>op \<in> set ops. in_range (nat \<bar>n\<bar>) op"
    and "names_unique (set (symbols ops))"
    and "(case rule of None \<Rightarrow> u | Some r \<Rightarrow> r) = NEW"
  shows "(\<exists>s'. circuit_append (fresh_state st k (Circuit n nm u)) (Seq (map Instr ops)) mapping rule
              = (s', None) \<and>
            moment_structure s' = map (\<lambda>op. [op]) ops) \<and>
         (\<exists>s'. append_calls (fresh_state st k (Circuit n nm u))
                (map (\<lambda>op. (Single (Instr op), mapping)) ops) rule = (s', None) \<and>
            moment_structure s' = map (\<lambda>op. [op]) ops)"
proof -
  let ?s = "fresh_state st k (Circuit n nm u)"
  let ?S = "set (symbols ops)"
  from assms(1) obtain op rest where ops: "ops = op # rest"
    by (cases ops) auto
  have s: "moments (circ ?s) = []" "fst ` set (parameter_table (circ ?s)) \<subseteq> ?S"
    "num_qubits (circ ?s) = nat \<bar>n\<bar>" "update_rule (circ ?s) = u"
    by (simp_all add: fresh_state_def Circuit_def)
  from assms(2) ops have r: "in_range (num_qubits (circ ?s)) op" "\<forall>op \<in> set rest. in_range (nat \<bar>n\<bar>) op"
    by (simp_all add: s)
  from ops have sy: "set (symbols_of (gate_params op)) \<subseteq> ?S" "set (symbols rest) \<subseteq> ?S"
    by (auto simp: symbols_def)
  from update_instruction_NEW_first [OF assms(3) s(1,2) r(1) sy(1)] obtain s1 where
    1: "update_instruction (create_new_moment ?s None) op NEW = ((s1, NEW), None)"
       "seeded ?S (nat \<bar>n\<bar>) u s1" "moment_structure s1 = [[op]]"
    by (auto simp: s)
  let ?i = "int (length (moments (circ (create_new_moment ?s None))))"
  from update_from_NEW_seeded [OF assms(3) 1(2) r(2) sy(2), of ?i] obtain s2 where
    2: "update_from s1 (map Instr rest) NEW ?i = ((s2, NEW), None)"
       "moment_structure s2 = moment_structure s1 @ map (\<lambda>op. [op]) rest"
    by blast
  have ru: "(case rule of None \<Rightarrow> update_rule (circ ?s) | Some r \<Rightarrow> r) = NEW"
    using assms(4) by (simp add: s(4) split: option.splits)
  have a: "circuit_append ?s (Seq (map Instr ops)) mapping rule = (s2, None)"
    using ru 1(1) 2(1) s(1)
    by (simp add: circuit_append_def append_iterable_def subscript0_def update_def ops Let_def)
  have f: "circuit_append ?s (Single (Instr op)) mapping rule = (s1, None)"
    using ru 1(1) s(1)
    by (simp add: circuit_append_def append_iterable_def subscript0_def update_def Let_def)
  from append_calls_NEW_seeded [OF assms(3,4) 1(2) r(2) sy(2), of mapping] obtain s3 where
    3: "append_calls s1 (map (\<lambda>op. (Single (Instr op), mapping)) rest) rule = (s3, None)"
       "moment_structure s3 = moment_structure s1 @ map (\<lambda>op. [op]) rest"
    by blast
  have b: "append_calls ?s (map (\<lambda>op. (Single (Instr op), mapping)) ops) rule = (s3, None)"
    using f 3(1) by (simp add: ops)
  from a b 1(3) 2(2) 3(2) show ?thesis
    by (simp add: ops)
qed

theorem new_rule_one_operation_per_moment_witness:
  "[plain_op 0 [0], plain_op 1 [0], param_op 2 (Sym theta) [1]] \<noteq> [] \<and>
   list_all (in_range (nat \<bar>3\<bar>)) [plain_op 0 [0], plain_op 1 [0], param_op 2 (Sym theta) [1]] \<and>
   names_unique (set (symbols [plain_op 0 [0], plain_op 1 [0], param_op 2 (Sym theta) [1]])) \<and>
   moment_structure (fst (circuit_append (new_circuit 3 EARLIEST)
       (Seq (map Instr [plain_op 0 [0], plain_op 1 [0], param_op 2 (Sym theta) [1]])) None (Some NEW)))
     = [[plain_op 0 [0]], [plain_op 1 [0]], [param_op 2 (Sym theta) [1]]] \<and>
   snd (circuit_append (new_circuit 3 EARLIEST)
       (Seq (map Instr [plain_op 0 [0], plain_op 1 [0], param_op 2 (Sym theta) [1]])) None (Some NEW))
     = None"
proof -
  let ?ops = "[plain_op 0 [0], plain_op 1 [0], param_op 2 (Sym theta) [1]]"
  have 1: "?ops \<noteq> []" by simp
  have 2: "\<forall>op \<in> set ?ops. in_range (nat \<bar>3\<bar>) op"
    by (simp add: in_range_def plain_op_def param_op_def)
  have 3: "names_unique (set (symbols ?ops))"
    by (simp add: names_unique_def symbols_def plain_op_def param_op_def)
  have 4: "(case Some NEW of None \<Rightarrow> EARLIEST | Some r \<Rightarrow> r) = NEW" by simp
  from new_rule_one_operation_per_moment [OF 1 2 3 4, of "\<lambda>_. []" 0 None None]
  show ?thesis using 2 3 by (auto simp: new_circuit_def list_all_iff)
qed

section \<open>Determinism\<close>

text \<open>No method reads the name of the circuit, and the default update rule is read only
  by \<^verbatim>\<open>append\<close> when no rule is given: every method commutes with a change of both.\<close>

lemma relabel_fields [simp]:
  "store (relabel nm u s) = store s"
  "next_ref (relabel nm u s) = next_ref s"
  "num_qubits (circ (relabel nm u s)) = num_qubits (circ s)"
  "moments (circ (relabel nm u s)) = moments (circ s)"
  "parameter_table (circ (relabel nm u s)) = parameter_table (circ s)"
  "update_rule (circ (relabel nm u s)) = u"
  "name (circ (relabel nm u s)) = nm"
  by (simp_all add: relabel_def)

lemma relabel_store: "relabel nm u (s\<lparr>store := st\<rparr>) = (relabel nm u s)\<lparr>store := st\<rparr>"
  by (simp add: relabel_def)

lemma moment_structure_relabel [simp]: "moment_structure (relabel nm u s) = moment_structure s"
  by (simp add: moment_structure_def)

lemma add_parameters_relabel:
  "add_parameters (relabel nm u s) instr = apfst (relabel nm u) (add_parameters s instr)"
  by (simp add: add_parameters_def relabel_def split: prod.splits)

lemma add_parameters_all_relabel:
  "add_parameters_all (relabel nm u s) instrs = apfst (relabel nm u) (add_parameters_all s instrs)"
  by (induction instrs arbitrary: s)
    (auto simp: add_parameters_relabel split: prod.splits option.splits)

lemma create_new_moment_relabel:
  "create_new_moment (relabel nm u s) x = relabel nm u (create_new_moment s x)"
  by (simp add: create_new_moment_def relabel_def)

lemma earliest_scan_relabel:
  "earliest_scan (relabel nm u s) rs op b = apfst (relabel nm u) (earliest_scan s rs op b)"
  by (induction rs arbitrary: s b)
    (auto simp: relabel_store [symmetric] split: sum.splits)

lemma seed_or_new_relabel:
  "seed_or_new (relabel nm u s) op = apfst (relabel nm u) (seed_or_new s op)"
  by (auto simp: seed_or_new_def relabel_store create_new_moment_relabel
      split: list.splits sum.splits)

lemma place_relabel:
  "place (relabel nm u s) op rule = apfst (apfst (relabel nm u)) (place s op rule)"
  by (cases rule)
    (auto simp: place_def Let_def earliest_appended_def earliest_scan_relabel seed_or_new_relabel
      relabel_store create_new_moment_relabel split: prod.splits sum.splits option.splits)

lemma update_instruction_relabel:
  "update_instruction (relabel nm u s) op rule
     = apfst (apfst (relabel nm u)) (update_instruction s op rule)"
  by (auto simp: update_instruction_def add_parameters_relabel place_relabel
      split: prod.splits sum.splits option.splits)

lemma relabel_moments:
  "(relabel nm u s)\<lparr>circ := (circ (relabel nm u s))\<lparr>moments := ms\<rparr>\<rparr>
     = relabel nm u (s\<lparr>circ := (circ s)\<lparr>moments := ms\<rparr>\<rparr>)"
  by (simp add: relabel_def)

lemma update_moment_relabel:
  "update_moment (relabel nm u s) m index = apfst (relabel nm u) (update_moment s m index)"
proof -
  obtain s1 e1 where a: "add_parameters_all s (store s m) = (s1, e1)"
    by (cases "add_parameters_all s (store s m)")
  then have b: "add_parameters_all (relabel nm u s) (store s m) = (relabel nm u s1, e1)"
    by (simp add: add_parameters_all_relabel)
  show ?thesis
    using a b by (simp add: update_moment_def Let_def relabel_moments split: option.splits)
qed

lemma append_circuit_relabel:
  "append_circuit (relabel nm u s) ms = apfst (relabel nm u) (append_circuit s ms)"
  by (induction ms arbitrary: s)
    (auto simp: append_moment_def update_moment_relabel split: prod.splits option.splits)

lemma update_from_relabel:
  "update_from (relabel nm u s) ops rule index
     = apfst (apfst (relabel nm u)) (update_from s ops rule index)"
  by (induction s ops rule index rule: update_from.induct)
    (auto simp: update_instruction_relabel update_moment_relabel append_circuit_relabel
      split: prod.splits option.splits)

lemma append_iterable_relabel:
  "append_iterable (relabel nm u s) first ops rule
     = apfst (relabel nm u) (append_iterable s first ops rule)"
  by (auto simp: append_iterable_def Let_def update_def update_from_relabel
      create_new_moment_relabel split: sum.splits prod.splits)

lemma relabel_same [simp]: "relabel (name (circ s)) (update_rule (circ s)) s = s"
  by (simp add: relabel_def)

lemma update_rule_append_iterable:
  "update_rule (circ (fst (append_iterable s first ops rule))) = update_rule (circ s)"
proof -
  have "fst (append_iterable s first ops rule)
      = relabel (name (circ s)) (update_rule (circ s)) (fst (append_iterable s first ops rule))"
    using append_iterable_relabel [of "name (circ s)" "update_rule (circ s)" s first ops rule]
    by (simp add: prod_eq_iff)
  then show ?thesis
    using relabel_fields(6) by metis
qed

lemma update_rule_circuit_append:
  "update_rule (circ (fst (circuit_append s operation mapping rule))) = update_rule (circ s)"
  by (cases operation) (simp_all add: circuit_append_def update_rule_append_iterable)

lemma circuit_append_relabel:
  assumes "rule \<noteq> None \<or> update_rule (circ s) = u"
  shows "circuit_append (relabel nm u s) operation mapping rule
     = apfst (relabel nm u) (circuit_append s operation mapping rule)"
  using assms
  by (cases operation; cases rule) (auto simp: circuit_append_def append_iterable_relabel)

lemma append_calls_relabel:
  "rule \<noteq> None \<or> update_rule (circ s) = u \<Longrightarrow>
   append_calls (relabel nm u s) calls rule = apfst (relabel nm u) (append_calls s calls rule)"
proof (induction calls arbitrary: s)
  case Nil
  then show ?case by simp
next
  case (Cons call calls)
  obtain s1 e1 where a: "circuit_append s (fst call) (snd call) rule = (s1, e1)"
    by (cases "circuit_append s (fst call) (snd call) rule")
  with Cons.prems have b: "circuit_append (relabel nm u s) (fst call) (snd call) rule
      = (relabel nm u s1, e1)"
    by (simp add: circuit_append_relabel)
  from a have "update_rule (circ s1) = update_rule (circ s)"
    using update_rule_circuit_append [of s "fst call" "snd call" rule] by simp
  with Cons.prems have "rule \<noteq> None \<or> update_rule (circ s1) = u"
    by auto
  from Cons.IH [OF this] a b show ?case
    by (cases e1) simp_all
qed


text \<open>
  Claim C6. Two circuits constructed with the same number of qubits (whatever their names
  and default rules) receive the same sequence of \<^verbatim>\<open>append\<close> calls with the same
  update rule (the same explicit rule, or none and the same default rule), from the same
  store of moment objects. Then both runs end alike: the same error or none, the same
  number of moments, the same operations in the same order in each moment, and the same
  parameter table. The result of every method is a function of its arguments; lists are
  scanned in order and no unordered container is iterated.
\<close>

theorem append_deterministic:
  assumes "\<bar>n1\<bar> = \<bar>n2\<bar>" and "rule = None \<longrightarrow> u1 = u2"
    and "append_calls (fresh_state st k (Circuit n1 nm1 u1)) calls rule = (s1, e1)"
    and "append_calls (fresh_state st k (Circuit n2 nm2 u2)) calls rule = (s2, e2)"
  shows "moment_structure s1 = moment_structure s2 \<and> e1 = e2 \<and>
         length (moments (circ s1)) = length (moments (circ s2)) \<and>
         parameter_table (circ s1) = parameter_table (circ s2)"
proof -
  have i: "fresh_state st k (Circuit n2 nm2 u2) = relabel nm2 u2 (fresh_state st k (Circuit n1 nm1 u1))"
    using assms(1) by (simp add: fresh_state_def Circuit_def relabel_def)
  have "rule \<noteq> None \<or> update_rule (circ (fresh_state st k (Circuit n1 nm1 u1))) = u2"
    using assms(2) by (auto simp: fresh_state_def Circuit_def)
  from append_calls_relabel [OF this, of nm2 calls] assms(3,4)
  have "s2 = relabel nm2 u2 s1" and "e2 = e1"
    by (simp_all add: i)
  then show ?thesis by simp
qed

theorem append_deterministic_witness:
  "\<bar>2::int\<bar> = \<bar>- 2\<bar> \<and>
   moment_structure (fst (append_calls (fresh_state (\<lambda>_. []) 0 (Circuit 2 None EARLIEST))
       [(Single (Instr (plain_op 0 [0])), None), (Seq [Instr (plain_op 1 [0]), Instr (plain_op 2 [1])], None)]
       (Some INLINE)))
   = moment_structure (fst (append_calls (fresh_state (\<lambda>_. []) 0 (Circuit (- 2) (Some ''b'') NEW))
       [(Single (Instr (plain_op 0 [0])), None), (Seq [Instr (plain_op 1 [0]), Instr (plain_op 2 [1])], None)]
       (Some INLINE))) \<and>
   moment_structure (fst (append_calls (fresh_state (\<lambda>_. []) 0 (Circuit 2 None EARLIEST))
       [(Single (Instr (plain_op 0 [0])), None), (Seq [Instr (plain_op 1 [0]), Instr (plain_op 2 [1])], None)]
       (Some INLINE)))
   = [[plain_op 0 [0]], [plain_op 1 [0], plain_op 2 [1]]]"
proof -
  let ?calls = "[(Single (Instr (plain_op 0 [0])), None),
                 (Seq [Instr (plain_op 1 [0]), Instr (plain_op 2 [1])], None)]"
  let ?r1 = "append_calls (fresh_state (\<lambda>_. []) 0 (Circuit 2 None EARLIEST)) ?calls (Some INLINE)"
  let ?r2 = "append_calls (fresh_state (\<lambda>_. []) 0 (Circuit (- 2) (Some ''b'') NEW)) ?calls (Some INLINE)"
  have 1: "\<bar>2::int\<bar> = \<bar>- 2\<bar>" by simp
  have 2: "Some INLINE = None \<longrightarrow> EARLIEST = NEW" by simp
  have 3: "?r1 = (fst ?r1, snd ?r1)" by simp
  have 4: "?r2 = (fst ?r2, snd ?r2)" by simp
  have 5: "moment_structure (fst ?r1) = [[plain_op 0 [0]], [plain_op 1 [0], plain_op 2 [1]]]"
    by (simp add: fresh_state_def Circuit_def circuit_append_def append_iterable_def subscript0_def
        update_def update_instruction_def in_range_def add_parameters_def place_def
        create_new_moment_def appendable_def Moment_append_def moment_structure_def plain_op_def)
  from append_deterministic [OF 1 2 3 4] 5 show ?thesis by simp
qed

end
